theory Spec2Isabelle
  imports Main
begin

section \<open>Data model (app/models/user.py)\<close>

text \<open>
  The three tables of the application and the response models built from them.
  Instants (\<open>datetime\<close>) are integers counting microseconds, the resolution of
  Python's \<open>datetime\<close>; strings are lists of characters compared exactly.
  A stored row always carries its primary key, so the \<open>Optional[int]\<close> key of
  the table classes (\<open>None\<close> only before the insert) is an \<open>int\<close> here.
\<close>

datatype PhoneCountry = country_au | country_ph

datatype UserRole = role_user | role_admin

record UserBase =
  email :: string
  phone_country :: "PhoneCountry option"
  phone_number :: "string option"
  is_active :: bool
  is_admin :: bool
  role :: UserRole
  first_name :: string
  last_name :: string

record User = UserBase +
  uid :: int
  hashed_password :: string
  user_created_at :: int
  user_updated_at :: int

record UserCreate =
  uc_email :: string
  uc_first_name :: string
  uc_last_name :: string
  uc_password :: string
  uc_phone_country :: PhoneCountry
  uc_phone_number :: string
  uc_role :: "UserRole option"

record UserResponse = UserBase +
  resp_id :: int
  resp_created_at :: int
  resp_updated_at :: "int option"

record Session =
  session_id :: int
  token :: string
  user_id :: int
  created_at :: int
  expires_at :: int

record SessionResponse =
  sr_id :: int
  sr_token :: string
  sr_user_id :: int
  sr_created_at :: int
  sr_expires_at :: int
  sr_user :: UserResponse

record PasswordResetToken =
  rt_id :: int
  rt_token :: string
  rt_user_id :: int
  rt_created_at :: int
  rt_expires_at :: int
  is_used :: bool

text \<open>The database: one list of rows per table, in insertion order.\<close>

record database =
  users :: "User list"
  sessions :: "Session list"
  reset_tokens :: "PasswordResetToken list"

text \<open>
  What a call reads from outside the controller: the clock (\<open>datetime.utcnow()\<close>),
  the token generator (\<open>secrets.token_urlsafe(32)\<close>), bcrypt (\<open>gensalt\<close>,
  \<open>hashpw\<close>, \<open>checkpw\<close>) and the outcome of the email service, whose methods
  catch every exception and answer a boolean. The clock is read once per call, and
  bcrypt's functions are taken as given: any salt, any hasher, any verifier.
\<close>

record env =
  utcnow :: int
  token_urlsafe :: string
  gensalt :: string
  hashpw :: "string \<Rightarrow> string \<Rightarrow> string"
  checkpw :: "string \<Rightarrow> string \<Rightarrow> bool"
  email_sent :: bool

datatype error =
    ValueError string
  | ValidationError
  | MultipleResultsFound
  | IntegrityError

definition timedelta_hours :: "int \<Rightarrow> int" where
  "timedelta_hours h = h * 3600000000"

definition hash_password :: "env \<Rightarrow> string \<Rightarrow> string" where
  "hash_password e password = hashpw e password (gensalt e)"

definition verify_password :: "env \<Rightarrow> string \<Rightarrow> string \<Rightarrow> bool" where
  "verify_password e password hashed = checkpw e password hashed"

section \<open>The store\<close>

text \<open>\<open>Result.scalar_one_or_none\<close>: no row, the one row, or an error for several.\<close>

definition scalar_one_or_none :: "'a list \<Rightarrow> error + 'a option" where
  "scalar_one_or_none rows =
     (case rows of
        [] \<Rightarrow> Inr None
      | [x] \<Rightarrow> Inr (Some x)
      | _ \<Rightarrow> Inl MultipleResultsFound)"

text \<open>An integer primary key left to the store: one more than the largest in use.\<close>

definition next_id :: "int list \<Rightarrow> int" where
  "next_id ids = fold max ids 0 + 1"

text \<open>
  \<open>session.add\<close> followed by \<open>commit\<close>. The columns \<open>User.email\<close>,
  \<open>Session.token\<close> and \<open>PasswordResetToken.token\<close> are declared unique, so
  the insert of a duplicate fails and stores nothing. The row comes back as
  \<open>refresh\<close> reads it, with its key.
\<close>

definition add_user :: "database \<Rightarrow> User \<Rightarrow> error + (User \<times> database)" where
  "add_user db row =
     (if email row \<in> set (map email (users db)) then Inl IntegrityError
      else let row' = row\<lparr>uid := next_id (map uid (users db))\<rparr>
           in Inr (row', db\<lparr>users := users db @ [row']\<rparr>))"

definition add_session :: "database \<Rightarrow> Session \<Rightarrow> error + (Session \<times> database)" where
  "add_session db row =
     (if token row \<in> set (map token (sessions db)) then Inl IntegrityError
      else let row' = row\<lparr>session_id := next_id (map session_id (sessions db))\<rparr>
           in Inr (row', db\<lparr>sessions := sessions db @ [row']\<rparr>))"

definition add_reset_token ::
  "database \<Rightarrow> PasswordResetToken \<Rightarrow> error + (PasswordResetToken \<times> database)" where
  "add_reset_token db row =
     (if rt_token row \<in> set (map rt_token (reset_tokens db)) then Inl IntegrityError
      else let row' = row\<lparr>rt_id := next_id (map rt_id (reset_tokens db))\<rparr>
           in Inr (row', db\<lparr>reset_tokens := reset_tokens db @ [row']\<rparr>))"

text \<open>\<open>session.delete(row)\<close>: the row is deleted by its primary key.\<close>

definition delete_row :: "Session \<Rightarrow> database \<Rightarrow> database" where
  "delete_row s db =
     db\<lparr>sessions := filter (\<lambda>x. session_id x \<noteq> session_id s) (sessions db)\<rparr>"

section \<open>Response models\<close>

text \<open>
  \<open>UserResponse.model_validate(user)\<close> reads the fields of \<open>UserBase\<close> and the key
  and timestamps off the row and validates them; \<open>hashed_password\<close> is no field of
  \<open>UserResponse\<close>. The declared bounds (\<open>max_length\<close>) of \<open>phone_number\<close>,
  \<open>first_name\<close> and \<open>last_name\<close> are checked here and nowhere else: the table
  class \<open>User\<close> and \<open>UserCreate\<close> do not check them.
\<close>

definition fields_ok :: "'a UserBase_scheme \<Rightarrow> bool" where
  "fields_ok u =
     (length (first_name u) \<le> 100 \<and> length (last_name u) \<le> 100 \<and>
      (case phone_number u of None \<Rightarrow> True | Some n \<Rightarrow> length n \<le> 20))"

definition public_view :: "User \<Rightarrow> UserResponse" where
  "public_view u =
     \<lparr>email = email u, phone_country = phone_country u, phone_number = phone_number u,
      is_active = is_active u, is_admin = is_admin u, role = role u,
      first_name = first_name u, last_name = last_name u,
      resp_id = uid u, resp_created_at = user_created_at u,
      resp_updated_at = Some (user_updated_at u)\<rparr>"

definition model_validate :: "User \<Rightarrow> error + UserResponse" where
  "model_validate u = (if fields_ok u then Inr (public_view u) else Inl ValidationError)"

section \<open>AuthController (app/controllers/auth_controller.py)\<close>

text \<open>
  Every operation takes the environment of the call and the database and returns its
  result, or the exception it raises, together with the database it leaves behind.
\<close>

definition get_user_by_email :: "database \<Rightarrow> string \<Rightarrow> error + UserResponse option" where
  "get_user_by_email db em =
     (case scalar_one_or_none (filter (\<lambda>u. email u = em) (users db)) of
        Inl err \<Rightarrow> Inl err
      | Inr None \<Rightarrow> Inr None
      | Inr (Some u) \<Rightarrow>
          (case model_validate u of Inl err \<Rightarrow> Inl err | Inr v \<Rightarrow> Inr (Some v)))"

definition get_user_by_id :: "database \<Rightarrow> int \<Rightarrow> error + UserResponse option" where
  "get_user_by_id db i =
     (case scalar_one_or_none (filter (\<lambda>u. uid u = i) (users db)) of
        Inl err \<Rightarrow> Inl err
      | Inr None \<Rightarrow> Inr None
      | Inr (Some u) \<Rightarrow>
          (case model_validate u of Inl err \<Rightarrow> Inl err | Inr v \<Rightarrow> Inr (Some v)))"

definition create_user ::
  "env \<Rightarrow> database \<Rightarrow> UserCreate \<Rightarrow> (error + UserResponse) \<times> database" where
  "create_user e db user_data =
     (case get_user_by_email db (uc_email user_data) of
        Inl err \<Rightarrow> (Inl err, db)
      | Inr (Some existing_user) \<Rightarrow> (Inl (ValueError ''Email already registered''), db)
      | Inr None \<Rightarrow>
          (let hashed = hash_password e (uc_password user_data);
               db_user = \<lparr>email = uc_email user_data,
                          phone_country = Some (uc_phone_country user_data),
                          phone_number = Some (uc_phone_number user_data),
                          is_active = True,
                          is_admin = False,
                          role = (case uc_role user_data of None \<Rightarrow> role_user | Some r \<Rightarrow> r),
                          first_name = uc_first_name user_data,
                          last_name = uc_last_name user_data,
                          uid = 0,
                          hashed_password = hashed,
                          user_created_at = utcnow e,
                          user_updated_at = utcnow e\<rparr>
           in case add_user db db_user of
                Inl err \<Rightarrow> (Inl err, db)
              | Inr (row, db') \<Rightarrow>
                  (let welcome = email_sent e
                   in case model_validate row of
                        Inl err \<Rightarrow> (Inl err, db')
                      | Inr v \<Rightarrow> (Inr v, db'))))"

definition authenticate_user ::
  "env \<Rightarrow> database \<Rightarrow> string \<Rightarrow> string \<Rightarrow> (error + UserResponse option) \<times> database" where
  "authenticate_user e db em password =
     (case scalar_one_or_none (filter (\<lambda>u. email u = em) (users db)) of
        Inl err \<Rightarrow> (Inl err, db)
      | Inr None \<Rightarrow> (Inr None, db)
      | Inr (Some u) \<Rightarrow>
          if \<not> verify_password e password (hashed_password u) then (Inr None, db)
          else (case model_validate u of
                  Inl err \<Rightarrow> (Inl err, db)
                | Inr v \<Rightarrow> (Inr (Some v), db)))"

text \<open>
  \<open>create_session\<close> commits the row before it looks the user up; a
  \<open>SessionResponse\<close> needs a user, so with none it fails validation, after the commit.
\<close>

definition create_session ::
  "env \<Rightarrow> database \<Rightarrow> int \<Rightarrow> (error + SessionResponse) \<times> database" where
  "create_session e db i =
     (let tok = token_urlsafe e;
          expires = utcnow e + timedelta_hours 24;
          db_session = \<lparr>session_id = 0, token = tok, user_id = i,
                        created_at = utcnow e, expires_at = expires\<rparr>
      in case add_session db db_session of
           Inl err \<Rightarrow> (Inl err, db)
         | Inr (row, db') \<Rightarrow>
             (case get_user_by_id db' i of
                Inl err \<Rightarrow> (Inl err, db')
              | Inr None \<Rightarrow> (Inl ValidationError, db')
              | Inr (Some v) \<Rightarrow>
                  (Inr \<lparr>sr_id = session_id row, sr_token = token row,
                        sr_user_id = user_id row, sr_created_at = created_at row,
                        sr_expires_at = expires_at row, sr_user = v\<rparr>, db')))"

definition get_session_by_token ::
  "env \<Rightarrow> database \<Rightarrow> string \<Rightarrow> (error + SessionResponse option) \<times> database" where
  "get_session_by_token e db tok =
     (case scalar_one_or_none
             (filter (\<lambda>s. token s = tok \<and> expires_at s > utcnow e) (sessions db)) of
        Inl err \<Rightarrow> (Inl err, db)
      | Inr None \<Rightarrow> (Inr None, db)
      | Inr (Some s) \<Rightarrow>
          (case get_user_by_id db (user_id s) of
             Inl err \<Rightarrow> (Inl err, db)
           | Inr None \<Rightarrow> (Inr None, db)
           | Inr (Some v) \<Rightarrow>
               (Inr (Some \<lparr>sr_id = session_id s, sr_token = token s,
                            sr_user_id = user_id s, sr_created_at = created_at s,
                            sr_expires_at = expires_at s, sr_user = v\<rparr>), db)))"

definition delete_session ::
  "env \<Rightarrow> database \<Rightarrow> string \<Rightarrow> (error + bool) \<times> database" where
  "delete_session e db tok =
     (case scalar_one_or_none (filter (\<lambda>s. token s = tok) (sessions db)) of
        Inl err \<Rightarrow> (Inl err, db)
      | Inr None \<Rightarrow> (Inr False, db)
      | Inr (Some s) \<Rightarrow> (Inr True, delete_row s db))"

definition cleanup_expired_sessions :: "env \<Rightarrow> database \<Rightarrow> (error + nat) \<times> database" where
  "cleanup_expired_sessions e db =
     (let expired_sessions = filter (\<lambda>s. expires_at s \<le> utcnow e) (sessions db);
          count = length expired_sessions
      in (Inr count, fold delete_row expired_sessions db))"

definition create_password_reset_token ::
  "env \<Rightarrow> database \<Rightarrow> string \<Rightarrow> (error + bool) \<times> database" where
  "create_password_reset_token e db em =
     (case get_user_by_email db em of
        Inl err \<Rightarrow> (Inl err, db)
      | Inr None \<Rightarrow> (Inr False, db)
      | Inr (Some u) \<Rightarrow>
          (let tok = token_urlsafe e;
               expires = utcnow e + timedelta_hours 1;
               reset_token = \<lparr>rt_id = 0, rt_token = tok, rt_user_id = resp_id u,
                              rt_created_at = utcnow e, rt_expires_at = expires,
                              is_used = False\<rparr>
           in case add_reset_token db reset_token of
                Inl err \<Rightarrow> (Inl err, db)
              | Inr (row, db') \<Rightarrow>
                  (if email_sent e then (Inr True, db') else (Inr True, db'))))"

text \<open>
  \<open>reset_password\<close> changes two rows and commits once: the user's
  \<open>hashed_password\<close> (the column \<open>updated_at\<close> follows every update of the row)
  and the token's \<open>is_used\<close>. Each update addresses its row by primary key.
\<close>

definition reset_password ::
  "env \<Rightarrow> database \<Rightarrow> string \<Rightarrow> string \<Rightarrow> (error + bool) \<times> database" where
  "reset_password e db tok new_password =
     (case scalar_one_or_none
             (filter (\<lambda>r. rt_token r = tok \<and> rt_expires_at r > utcnow e \<and> is_used r = False)
                (reset_tokens db)) of
        Inl err \<Rightarrow> (Inl err, db)
      | Inr None \<Rightarrow> (Inr False, db)
      | Inr (Some reset_token) \<Rightarrow>
          (case scalar_one_or_none
                  (filter (\<lambda>u. uid u = rt_user_id reset_token) (users db)) of
             Inl err \<Rightarrow> (Inl err, db)
           | Inr None \<Rightarrow> (Inr False, db)
           | Inr (Some u) \<Rightarrow>
               (let hashed = hash_password e new_password;
                    db' = db\<lparr>users :=
                               map (\<lambda>x. if uid x = uid u
                                         then x\<lparr>hashed_password := hashed,
                                                user_updated_at := utcnow e\<rparr>
                                         else x) (users db),
                             reset_tokens :=
                               map (\<lambda>x. if rt_id x = rt_id reset_token
                                         then x\<lparr>is_used := True\<rparr>
                                         else x) (reset_tokens db)\<rparr>;
                    confirmation = email_sent e
                in (Inr True, db'))))"

section \<open>Sequences of calls\<close>

datatype request =
    CreateUser UserCreate
  | AuthenticateUser string string
  | CreateSession int
  | GetSessionByToken string
  | DeleteSession string
  | CleanupExpiredSessions
  | CreatePasswordResetToken string
  | ResetPassword string string

fun step :: "database \<Rightarrow> env \<times> request \<Rightarrow> database" where
  "step db (e, CreateUser user_data) = snd (create_user e db user_data)"
| "step db (e, AuthenticateUser em password) = snd (authenticate_user e db em password)"
| "step db (e, CreateSession i) = snd (create_session e db i)"
| "step db (e, GetSessionByToken tok) = snd (get_session_by_token e db tok)"
| "step db (e, DeleteSession tok) = snd (delete_session e db tok)"
| "step db (e, CleanupExpiredSessions) = snd (cleanup_expired_sessions e db)"
| "step db (e, CreatePasswordResetToken em) = snd (create_password_reset_token e db em)"
| "step db (e, ResetPassword tok new_password) = snd (reset_password e db tok new_password)"

fun run :: "database \<Rightarrow> (env \<times> request) list \<Rightarrow> database" where
  "run db [] = db"
| "run db (c # cs) = run (step db c) cs"

section \<open>Constraints of the schema\<close>

text \<open>
  The unique columns and primary keys (\<open>unique_keys\<close>), the foreign keys of
  \<open>Session\<close> and \<open>PasswordResetToken\<close> into \<open>User\<close> (\<open>foreign_keys\<close>), and
  the declared field bounds of the stored users (\<open>views_ok\<close>).
\<close>

definition unique_keys :: "database \<Rightarrow> bool" where
  "unique_keys db =
     (distinct (map uid (users db)) \<and> distinct (map email (users db)) \<and>
      distinct (map session_id (sessions db)) \<and> distinct (map token (sessions db)) \<and>
      distinct (map rt_id (reset_tokens db)) \<and> distinct (map rt_token (reset_tokens db)))"

definition foreign_keys :: "database \<Rightarrow> bool" where
  "foreign_keys db =
     (list_all (\<lambda>s. user_id s \<in> set (map uid (users db))) (sessions db) \<and>
      list_all (\<lambda>r. rt_user_id r \<in> set (map uid (users db))) (reset_tokens db))"

definition views_ok :: "database \<Rightarrow> bool" where
  "views_ok db = list_all fields_ok (users db)"

section \<open>Predicates used in the proofs\<close>

text \<open>
  A token string is inert at instant \<open>t\<close> when it is stored and every row carrying it
  is used or has expired by \<open>t\<close>.
\<close>

definition token_inert :: "int \<Rightarrow> string \<Rightarrow> database \<Rightarrow> bool" where
  "token_inert t T db =
     (T \<in> set (map rt_token (reset_tokens db)) \<and>
      list_all (\<lambda>r. rt_token r = T \<longrightarrow> is_used r \<or> rt_expires_at r \<le> t) (reset_tokens db))"

text \<open>
  A call keeps the declared field bounds and the foreign keys when a registration stays
  within the bounds of \<open>UserBase\<close> and a session is created for a stored user, as
  the routes do (\<open>create_session(user.id)\<close> after \<open>authenticate_user\<close> or
  \<open>create_user\<close>).
\<close>

fun call_ok :: "database \<Rightarrow> request \<Rightarrow> bool" where
  "call_ok db (CreateUser user_data) =
     (length (uc_first_name user_data) \<le> 100 \<and> length (uc_last_name user_data) \<le> 100 \<and>
      length (uc_phone_number user_data) \<le> 20)"
| "call_ok db (CreateSession i) = (i \<in> set (map uid (users db)))"
| "call_ok db _ = True"

fun calls_ok :: "database \<Rightarrow> (env \<times> request) list \<Rightarrow> bool" where
  "calls_ok db [] = True"
| "calls_ok db ((e, q) # cs) = (call_ok db q \<and> calls_ok (step db (e, q)) cs)"

text \<open>
  The same database with the \<open>is_active\<close> flag of the user with key \<open>i\<close> set to
  \<open>b\<close>, and the same change on the responses that show the flag.
\<close>

definition user_with_is_active :: "int \<Rightarrow> bool \<Rightarrow> User \<Rightarrow> User" where
  "user_with_is_active i b u = (if uid u = i then u\<lparr>is_active := b\<rparr> else u)"

definition with_is_active :: "int \<Rightarrow> bool \<Rightarrow> database \<Rightarrow> database" where
  "with_is_active i b db = db\<lparr>users := map (user_with_is_active i b) (users db)\<rparr>"



section \<open>Example data\<close>

text \<open>
  An environment whose hasher prefixes the salt to the password, and the database that a
  registration, a login session and a reset request at instant 0 leave behind: one user,
  one session that expires after 24 hours, one reset token that expires after one hour.
  Then a second registration and a sequence of further calls.
\<close>

definition demo_env :: "int \<Rightarrow> string \<Rightarrow> env" where
  "demo_env t tok =
     \<lparr>utcnow = t, token_urlsafe = tok, gensalt = ''$2b$'',
      hashpw = (\<lambda>password salt. salt @ password),
      checkpw = (\<lambda>password hashed. hashed = ''$2b$'' @ password),
      email_sent = False\<rparr>"

definition alice :: User where
  "alice =
     \<lparr>email = ''alice@example.com'', phone_country = Some country_au,
      phone_number = Some ''0400000000'', is_active = True, is_admin = False,
      role = role_user, first_name = ''Alice'', last_name = ''Liddell'',
      uid = 1, hashed_password = ''$2b$pw12345678'',
      user_created_at = 0, user_updated_at = 0\<rparr>"

definition demo_session :: Session where
  "demo_session = \<lparr>session_id = 1, token = ''S1'', user_id = 1, created_at = 0, expires_at = 86400000000\<rparr>"

definition demo_reset_token :: PasswordResetToken where
  "demo_reset_token =
     \<lparr>rt_id = 1, rt_token = ''T1'', rt_user_id = 1, rt_created_at = 0, rt_expires_at = 3600000000,
      is_used = False\<rparr>"

definition demo_db :: database where
  "demo_db = \<lparr>users = [alice], sessions = [demo_session], reset_tokens = [demo_reset_token]\<rparr>"

definition bob_data :: UserCreate where
  "bob_data =
     \<lparr>uc_email = ''bob@example.com'', uc_first_name = ''Bob'', uc_last_name = ''Builder'',
      uc_password = ''hunter2hunter2'', uc_phone_country = country_ph,
      uc_phone_number = ''09170000000'', uc_role = None\<rparr>"

definition alice_data :: UserCreate where
  "alice_data =
     \<lparr>uc_email = ''alice@example.com'', uc_first_name = ''Alice'', uc_last_name = ''Liddell'',
      uc_password = ''pw12345678'', uc_phone_country = country_au,
      uc_phone_number = ''0400000000'', uc_role = None\<rparr>"

definition bob :: User where
  "bob =
     \<lparr>email = ''bob@example.com'', phone_country = Some country_ph,
      phone_number = Some ''09170000000'', is_active = True, is_admin = False,
      role = role_user, first_name = ''Bob'', last_name = ''Builder'',
      uid = 2, hashed_password = ''$2b$hunter2hunter2'',
      user_created_at = 10, user_updated_at = 10\<rparr>"

definition demo_calls :: "(env \<times> request) list" where
  "demo_calls =
     [(demo_env 20 ''T2'', CreatePasswordResetToken ''alice@example.com''),
      (demo_env 25 ''n'', ResetPassword ''T1'' ''again1234''),
      (demo_env 26 ''n'', CreatePasswordResetToken ''alice@example.com'')]"

text \<open>
  The database after a registration whose first name has 101 characters, a session for
  that user, the database after \<open>create_session\<close> for the key 99 that no user has, and
  the example database with its user deactivated.
\<close>

definition long_name :: string where
  "long_name = replicate 101 CHR ''a''"

definition carol_data :: UserCreate where
  "carol_data =
     \<lparr>uc_email = ''carol@example.com'', uc_first_name = long_name, uc_last_name = ''Carroll'',
      uc_password = ''pw87654321'', uc_phone_country = country_au,
      uc_phone_number = ''0400000001'', uc_role = None\<rparr>"

definition carol :: User where
  "carol =
     \<lparr>email = ''carol@example.com'', phone_country = Some country_au,
      phone_number = Some ''0400000001'', is_active = True, is_admin = False,
      role = role_user, first_name = long_name, last_name = ''Carroll'',
      uid = 2, hashed_password = ''$2b$pw87654321'',
      user_created_at = 10, user_updated_at = 10\<rparr>"

definition db_long :: database where
  "db_long = demo_db\<lparr>users := [alice, carol]\<rparr>"

definition carol_session :: Session where
  "carol_session =
     \<lparr>session_id = 2, token = ''S2'', user_id = 2, created_at = 30, expires_at = 86400000030\<rparr>"

definition orphan_session :: Session where
  "orphan_session =
     \<lparr>session_id = 2, token = ''S9'', user_id = 99, created_at = 10, expires_at = 86400000010\<rparr>"

definition db_orphan :: database where
  "db_orphan = demo_db\<lparr>sessions := [demo_session, orphan_session]\<rparr>"



section \<open>Lookups by a unique key\<close>

lemma filter_key_none: "k \<notin> set (map f xs) \<Longrightarrow> filter (\<lambda>y. f y = k) xs = []"
  by (induction xs) auto

lemma filter_key_one:
  "distinct (map f xs) \<Longrightarrow> x \<in> set xs \<Longrightarrow> filter (\<lambda>y. f y = f x) xs = [x]"
  by (induction xs) (auto simp: filter_key_none image_iff)

lemma filter_key_and:
  "filter (\<lambda>y. f y = k \<and> P y) xs = filter P (filter (\<lambda>y. f y = k) xs)"
  by (induction xs) auto

lemma filter_key_neq:
  "distinct (map f xs) \<Longrightarrow> x \<in> set xs \<Longrightarrow> g x = k \<Longrightarrow> distinct (map g xs) \<Longrightarrow>
   filter (\<lambda>y. f y \<noteq> f x) xs = filter (\<lambda>y. g y \<noteq> k) xs"
  by (rule filter_cong) (auto simp: distinct_map inj_on_def)

lemma filter_key_P_one:
  "distinct (map f xs) \<Longrightarrow> x \<in> set xs \<Longrightarrow> P x \<Longrightarrow>
   filter (\<lambda>y. f y = f x \<and> P y) xs = [x]"
  by (simp add: filter_key_and filter_key_one)

lemma filter_key_P_none:
  "distinct (map f xs) \<Longrightarrow> \<not> (\<exists>x\<in>set xs. f x = k \<and> P x) \<Longrightarrow>
   filter (\<lambda>y. f y = k \<and> P y) xs = []"
  by (auto simp: filter_empty_conv)

lemma scalar_nil [simp]: "scalar_one_or_none [] = Inr None"
  by (simp add: scalar_one_or_none_def)

lemma scalar_one [simp]: "scalar_one_or_none [x] = Inr (Some x)"
  by (simp add: scalar_one_or_none_def)

section \<open>Keys, deletions and response models\<close>

lemma fold_max_ge: "(a::int) \<le> fold max ids a"
  by (induction ids arbitrary: a) (auto intro: order_trans[OF max.cobounded2])

lemma fold_max_mem: "(x::int) \<in> set ids \<Longrightarrow> x \<le> fold max ids a"
proof (induction ids arbitrary: a)
  case Nil then show ?case by simp
next
  case (Cons y ys)
  show ?case
  proof (cases "x = y")
    case True
    have "y \<le> max y a" by simp
    also have "\<dots> \<le> fold max ys (max y a)" by (rule fold_max_ge)
    finally show ?thesis using True by simp
  next
    case False
    with Cons.prems have "x \<in> set ys" by simp
    then show ?thesis by (simp add: Cons.IH)
  qed
qed

lemma next_id_fresh: "next_id ids \<notin> set ids"
proof
  assume "next_id ids \<in> set ids"
  then have "next_id ids \<le> fold max ids 0" by (rule fold_max_mem)
  then show False by (simp add: next_id_def)
qed

lemma timedelta_hours_1: "timedelta_hours 1 = 3600000000" by (simp add: timedelta_hours_def)

lemma timedelta_hours_24: "timedelta_hours 24 = 86400000000" by (simp add: timedelta_hours_def)

lemma fold_delete_row:
  "fold delete_row ds db =
     db\<lparr>sessions := filter (\<lambda>x. session_id x \<notin> set (map session_id ds)) (sessions db)\<rparr>"
proof (induction ds arbitrary: db)
  case Nil show ?case by simp
next
  case (Cons d ds)
  have dd: "delete_row d db =
      db\<lparr>sessions := filter (\<lambda>x. session_id x \<noteq> session_id d) (sessions db)\<rparr>"
    by (simp add: delete_row_def)
  have "fold delete_row (d # ds) db = fold delete_row ds (delete_row d db)" by simp
  also have "\<dots> = (delete_row d db)\<lparr>sessions :=
      filter (\<lambda>x. session_id x \<notin> set (map session_id ds)) (sessions (delete_row d db))\<rparr>"
    by (rule Cons.IH)
  also have "\<dots> = db\<lparr>sessions :=
      filter (\<lambda>x. session_id x \<notin> set (map session_id (d # ds))) (sessions db)\<rparr>"
    unfolding dd by (simp add: conj_commute)
  finally show ?case .
qed

lemma model_validate_ok: "fields_ok u \<Longrightarrow> model_validate u = Inr (public_view u)"
  by (simp add: model_validate_def)

lemma views_okD: "views_ok db \<Longrightarrow> u \<in> set (users db) \<Longrightarrow> fields_ok u"
  by (simp add: views_ok_def list_all_iff)

lemma get_user_by_id_some:
  assumes "distinct (map uid (users db))" "views_ok db" "u \<in> set (users db)"
  shows "get_user_by_id db (uid u) = Inr (Some (public_view u))"
proof -
  have "filter (\<lambda>y. uid y = uid u) (users db) = [u]"
    using assms(1,3) by (rule filter_key_one)
  then show ?thesis
    using views_okD[OF assms(2,3)] by (simp add: get_user_by_id_def model_validate_ok)
qed

lemma get_user_by_id_none:
  assumes "i \<notin> set (map uid (users db))"
  shows "get_user_by_id db i = Inr None"
  using filter_key_none[OF assms] by (simp add: get_user_by_id_def)

lemma get_user_by_email_some:
  assumes "distinct (map email (users db))" "views_ok db" "u \<in> set (users db)"
  shows "get_user_by_email db (email u) = Inr (Some (public_view u))"
proof -
  have "filter (\<lambda>y. email y = email u) (users db) = [u]"
    using assms(1,3) by (rule filter_key_one)
  then show ?thesis
    using views_okD[OF assms(2,3)] by (simp add: get_user_by_email_def model_validate_ok)
qed

lemma get_user_by_email_none:
  assumes "em \<notin> set (map email (users db))"
  shows "get_user_by_email db em = Inr None"
  using filter_key_none[OF assms] by (simp add: get_user_by_email_def)

lemma snd_authenticate_user: "snd (authenticate_user e db em pw) = db"
  by (simp add: authenticate_user_def split: sum.splits option.splits)

lemma snd_get_session_by_token: "snd (get_session_by_token e db tok) = db"
  by (simp add: get_session_by_token_def split: sum.splits option.splits)

section \<open>The example data meets the constraints\<close>

lemmas demo_defs = demo_db_def alice_def demo_session_def demo_reset_token_def demo_env_def

lemma demo_db_reached:
  "run \<lparr>users = [], sessions = [], reset_tokens = []\<rparr>
     [(demo_env 0 ''n'', CreateUser alice_data),
      (demo_env 0 ''S1'', CreateSession 1),
      (demo_env 0 ''T1'', CreatePasswordResetToken ''alice@example.com'')] = demo_db"
  by (simp add: create_user_def create_session_def create_password_reset_token_def
        get_user_by_email_def get_user_by_id_def add_user_def add_session_def
        add_reset_token_def next_id_def model_validate_def fields_ok_def public_view_def
        hash_password_def timedelta_hours_def scalar_one_or_none_def Let_def
        demo_defs alice_data_def)

lemma demo_unique: "unique_keys demo_db"
  by (simp add: unique_keys_def demo_defs)

lemma demo_views: "views_ok demo_db"
  by (simp add: views_ok_def fields_ok_def demo_defs)

lemma demo_foreign: "foreign_keys demo_db"
  by (simp add: foreign_keys_def demo_defs)

lemma demo_alice_in: "alice \<in> set (users demo_db)"
  by (simp add: demo_db_def)

lemma demo_session_in: "demo_session \<in> set (sessions demo_db)"
  by (simp add: demo_db_def)

lemma demo_reset_token_in: "demo_reset_token \<in> set (reset_tokens demo_db)"
  by (simp add: demo_db_def)

lemmas long_defs = db_long_def carol_def carol_data_def carol_session_def long_name_def
  db_orphan_def orphan_session_def

lemma carol_too_long: "\<not> fields_ok carol"
  by (simp add: fields_ok_def carol_def long_name_def)

lemma db_long_reached:
  "create_user (demo_env 10 ''n'') demo_db carol_data = (Inl ValidationError, db_long)"
  by (simp add: create_user_def get_user_by_email_def add_user_def next_id_def
        model_validate_def fields_ok_def hash_password_def scalar_one_or_none_def Let_def
        demo_defs long_defs)

lemma orphan_unique: "unique_keys db_orphan"
  by (simp add: unique_keys_def demo_defs long_defs)





section \<open>Operations on a stored row\<close>

text \<open>
  What each operation returns for a row that is stored, under the unique keys alone:
  the response is whatever \<open>UserResponse.model_validate\<close> makes of the user.
\<close>

lemma get_user_by_id_stored:
  assumes "distinct (map uid (users db))" and "u \<in> set (users db)"
  shows "get_user_by_id db (uid u) = map_sum id Some (model_validate u)"
proof -
  have "filter (\<lambda>y. uid y = uid u) (users db) = [u]"
    using assms by (rule filter_key_one)
  then show ?thesis
    by (simp add: get_user_by_id_def split: sum.splits)
qed



lemma get_session_by_token_stored:
  assumes "distinct (map token (sessions db))" and "distinct (map uid (users db))"
    and "s \<in> set (sessions db)" and "utcnow e < expires_at s"
    and "u \<in> set (users db)" and "uid u = user_id s"
  shows "get_session_by_token e db (token s) =
     (map_sum id
        (\<lambda>v. Some \<lparr>sr_id = session_id s, sr_token = token s, sr_user_id = user_id s,
                    sr_created_at = created_at s, sr_expires_at = expires_at s, sr_user = v\<rparr>)
        (model_validate u), db)"
proof -
  have f: "filter (\<lambda>y. token y = token s \<and> utcnow e < expires_at y) (sessions db) = [s]"
    using assms(1,3,4) by (intro filter_key_P_one) auto
  have g: "get_user_by_id db (user_id s) = map_sum id Some (model_validate u)"
    using get_user_by_id_stored[OF assms(2,5)] assms(6) by simp
  show ?thesis
  proof (cases "model_validate u")
    case (Inl err)
    with f g show ?thesis by (simp add: get_session_by_token_def)
  next
    case (Inr v)
    with f g show ?thesis by (simp add: get_session_by_token_def)
  qed
qed

lemma get_session_by_token_orphan:
  assumes "distinct (map token (sessions db))"
    and "s \<in> set (sessions db)" and "utcnow e < expires_at s"
    and "user_id s \<notin> set (map uid (users db))"
  shows "get_session_by_token e db (token s) = (Inr None, db)"
proof -
  have f: "filter (\<lambda>y. token y = token s \<and> utcnow e < expires_at y) (sessions db) = [s]"
    using assms(1,2,3) by (intro filter_key_P_one) auto
  have g: "get_user_by_id db (user_id s) = Inr None"
    using assms(4) by (rule get_user_by_id_none)
  from f g show ?thesis by (simp add: get_session_by_token_def)
qed

lemma get_session_by_token_unmatched:
  assumes "distinct (map token (sessions db))"
    and "\<not> (\<exists>s\<in>set (sessions db). token s = tok \<and> utcnow e < expires_at s)"
  shows "get_session_by_token e db tok = (Inr None, db)"
proof -
  have "filter (\<lambda>y. token y = tok \<and> utcnow e < expires_at y) (sessions db) = []"
    using assms by (rule filter_key_P_none)
  then show ?thesis by (simp add: get_session_by_token_def)
qed


section \<open>A reset token is spent once\<close>

lemma reset_tokens_create_user: "reset_tokens (snd (create_user e db ud)) = reset_tokens db"
  by (simp add: create_user_def add_user_def Let_def split: sum.splits option.splits prod.splits if_splits)

lemma reset_tokens_create_session: "reset_tokens (snd (create_session e db i)) = reset_tokens db"
  by (auto simp: create_session_def add_session_def Let_def split: sum.splits option.splits prod.splits if_splits)

lemma reset_tokens_delete_session: "reset_tokens (snd (delete_session e db tok)) = reset_tokens db"
  by (simp add: delete_session_def delete_row_def split: sum.splits option.splits)

lemma reset_tokens_cleanup: "reset_tokens (snd (cleanup_expired_sessions e db)) = reset_tokens db"
  by (simp add: cleanup_expired_sessions_def fold_delete_row Let_def)

lemma token_inert_append:
  "token_inert t T db \<Longrightarrow> rt_token r \<notin> set (map rt_token (reset_tokens db)) \<Longrightarrow>
   token_inert t T (db\<lparr>reset_tokens := reset_tokens db @ [r]\<rparr>)"
  by (auto simp: token_inert_def)

lemma token_inert_mark:
  "token_inert t T db \<Longrightarrow>
   token_inert t T (db\<lparr>users := us,
       reset_tokens := map (\<lambda>x. if rt_id x = k then x\<lparr>is_used := True\<rparr> else x) (reset_tokens db)\<rparr>)"
  by (auto simp: token_inert_def list_all_iff image_iff)

lemma token_inert_create_reset:
  assumes "token_inert t T db"
  shows "token_inert t T (snd (create_password_reset_token e db em))"
proof (cases "get_user_by_email db em")
  case (Inl a) then show ?thesis using assms by (simp add: create_password_reset_token_def)
next
  case (Inr o1)
  show ?thesis
  proof (cases o1)
    case None with Inr assms show ?thesis by (simp add: create_password_reset_token_def)
  next
    case (Some v)
    show ?thesis
    proof (cases "token_urlsafe e \<in> set (map rt_token (reset_tokens db))")
      case True
      with Inr Some assms show ?thesis
        by (simp add: create_password_reset_token_def add_reset_token_def)
    next
      case False
      with Inr Some token_inert_append[OF assms, of "\<lparr>rt_id = next_id (map rt_id (reset_tokens db)),
          rt_token = token_urlsafe e, rt_user_id = resp_id v, rt_created_at = utcnow e,
          rt_expires_at = utcnow e + timedelta_hours 1, is_used = False\<rparr>"]
      show ?thesis
        by (simp add: create_password_reset_token_def add_reset_token_def Let_def)
    qed
  qed
qed

lemma token_inert_reset_password:
  assumes "token_inert t T db"
  shows "token_inert t T (snd (reset_password e db tok pw))"
  using assms token_inert_mark[OF assms]
  by (simp add: reset_password_def Let_def split: sum.splits option.splits)

lemma token_inert_step: "token_inert t T db \<Longrightarrow> token_inert t T (step db c)"
proof (cases c)
  case (Pair e q)
  assume a: "token_inert t T db"
  have same: "\<And>db'. reset_tokens db' = reset_tokens db \<Longrightarrow> token_inert t T db'"
    using a by (simp add: token_inert_def)
  show ?thesis
  proof (cases q)
    case (CreateUser ud) with Pair show ?thesis by (simp add: same reset_tokens_create_user)
  next
    case (AuthenticateUser em pw) with Pair a show ?thesis by (simp add: snd_authenticate_user)
  next
    case (CreateSession i) with Pair show ?thesis by (simp add: same reset_tokens_create_session)
  next
    case (GetSessionByToken tok) with Pair a show ?thesis by (simp add: snd_get_session_by_token)
  next
    case (DeleteSession tok) with Pair show ?thesis by (simp add: same reset_tokens_delete_session)
  next
    case CleanupExpiredSessions with Pair show ?thesis by (simp add: same reset_tokens_cleanup)
  next
    case (CreatePasswordResetToken em) with Pair a show ?thesis by (simp add: token_inert_create_reset)
  next
    case (ResetPassword tok pw) with Pair a show ?thesis by (simp add: token_inert_reset_password)
  qed
qed

lemma token_inert_run: "token_inert t T db \<Longrightarrow> token_inert t T (run db cs)"
  by (induction cs arbitrary: db) (simp_all add: token_inert_step)

lemma token_inert_fails:
  assumes "token_inert t T db" and "t \<le> utcnow e"
  shows "reset_password e db T pw = (Inr False, db)"
proof -
  have "filter (\<lambda>r. rt_token r = T \<and> rt_expires_at r > utcnow e \<and> is_used r = False)
                (reset_tokens db) = []"
    using assms by (auto simp: token_inert_def list_all_iff filter_empty_conv)
  then show ?thesis by (simp add: reset_password_def)
qed

lemma success_inert:
  assumes "unique_keys db" and "reset_password e db T pw = (Inr True, db1)"
  shows "token_inert t T db1"
proof -
  from assms(1) have d: "distinct (map rt_token (reset_tokens db))"
    by (simp add: unique_keys_def)
  let ?valid = "filter (\<lambda>r. rt_token r = T \<and> rt_expires_at r > utcnow e \<and> is_used r = False)
                (reset_tokens db)"
  have "\<exists>r us. scalar_one_or_none ?valid = Inr (Some r) \<and>
      db1 = db\<lparr>users := us,
               reset_tokens := map (\<lambda>x. if rt_id x = rt_id r then x\<lparr>is_used := True\<rparr> else x)
                                   (reset_tokens db)\<rparr>"
    using assms(2)
    by (simp add: reset_password_def Let_def split: sum.splits option.splits) blast
  then obtain r us where r: "scalar_one_or_none ?valid = Inr (Some r)"
    and db1: "db1 = db\<lparr>users := us,
               reset_tokens := map (\<lambda>x. if rt_id x = rt_id r then x\<lparr>is_used := True\<rparr> else x)
                                   (reset_tokens db)\<rparr>"
    by blast
  from r have "?valid = [r]"
    by (auto simp: scalar_one_or_none_def split: list.splits)
  then have "r \<in> set ?valid" by simp
  then have rin: "r \<in> set (reset_tokens db)" and rT: "rt_token r = T" by auto
  have only: "\<And>x. x \<in> set (reset_tokens db) \<Longrightarrow> rt_token x = T \<Longrightarrow> x = r"
    using d rin rT by (auto simp: distinct_map inj_on_def)
  define f :: "PasswordResetToken \<Rightarrow> PasswordResetToken"
    where "f = (\<lambda>x. if rt_id x = rt_id r then x\<lparr>is_used := True\<rparr> else x)"
  have tok: "\<And>x. rt_token (f x) = rt_token x" by (simp add: f_def)
  have used: "is_used (f r)" by (simp add: f_def)
  have rts: "reset_tokens db1 = map f (reset_tokens db)" by (simp add: db1 f_def)
  have "T \<in> set (map rt_token (reset_tokens db1))"
    using rin rT by (simp add: rts tok image_iff) blast
  moreover have "is_used y \<or> rt_expires_at y \<le> t"
    if "y \<in> set (reset_tokens db1)" "rt_token y = T" for y
  proof -
    from that(1) obtain x where x: "x \<in> set (reset_tokens db)" "y = f x"
      by (auto simp: rts)
    with that(2) have "x = r" using only by (simp add: tok)
    with x used show ?thesis by simp
  qed
  ultimately show ?thesis by (simp add: token_inert_def list_all_iff)
qed

text \<open>
  Claim C1: a reset token authorises at most one password change. With the unique keys
  of the schema, once \<open>reset_password\<close> has succeeded with token \<open>T\<close>, every later
  \<open>reset_password\<close> with \<open>T\<close>, after any sequence of calls in between and whatever
  the clock, answers \<open>False\<close> and leaves the three tables as they are. The same holds
  for a stored token whose expiry is not after the clock of the later call. The calls
  run one after another.
\<close>

theorem reset_token_single_use:
  assumes "unique_keys db"
  shows "(reset_password e db T p = (Inr True, db1) \<longrightarrow>
            reset_password e' (run db1 calls) T p' = (Inr False, run db1 calls))
       \<and> (T \<in> set (map rt_token (reset_tokens db)) \<and>
          (\<forall>r\<in>set (reset_tokens db). rt_token r = T \<longrightarrow> rt_expires_at r \<le> utcnow e') \<longrightarrow>
            reset_password e' (run db calls) T p' = (Inr False, run db calls))"
proof (intro conjI impI)
  assume "reset_password e db T p = (Inr True, db1)"
  with assms have "token_inert (utcnow e') T db1" by (rule success_inert)
  then have "token_inert (utcnow e') T (run db1 calls)" by (rule token_inert_run)
  then show "reset_password e' (run db1 calls) T p' = (Inr False, run db1 calls)"
    by (rule token_inert_fails) simp
next
  assume "T \<in> set (map rt_token (reset_tokens db)) \<and>
          (\<forall>r\<in>set (reset_tokens db). rt_token r = T \<longrightarrow> rt_expires_at r \<le> utcnow e')"
  then have "token_inert (utcnow e') T db" by (auto simp: token_inert_def list_all_iff)
  then have "token_inert (utcnow e') T (run db calls)" by (rule token_inert_run)
  then show "reset_password e' (run db calls) T p' = (Inr False, run db calls)"
    by (rule token_inert_fails) simp
qed

theorem reset_token_single_use_witness:
  "unique_keys demo_db
   \<and> fst (reset_password (demo_env 10 ''n'') demo_db ''T1'' ''newpass1234'') = Inr True
   \<and> reset_password (demo_env 30 ''n'')
        (run (snd (reset_password (demo_env 10 ''n'') demo_db ''T1'' ''newpass1234'')) demo_calls)
        ''T1'' ''third1234''
       = (Inr False,
          run (snd (reset_password (demo_env 10 ''n'') demo_db ''T1'' ''newpass1234'')) demo_calls)
   \<and> ''T1'' \<in> set (map rt_token (reset_tokens demo_db))
   \<and> rt_expires_at demo_reset_token \<le> utcnow (demo_env 3600000000 ''n'')
   \<and> reset_password (demo_env 3600000000 ''n'') (run demo_db demo_calls) ''T1'' ''third1234''
       = (Inr False, run demo_db demo_calls)"
proof -
  have s: "fst (reset_password (demo_env 10 ''n'') demo_db ''T1'' ''newpass1234'') = Inr True"
    by (simp add: reset_password_def scalar_one_or_none_def demo_defs)
  then have s': "reset_password (demo_env 10 ''n'') demo_db ''T1'' ''newpass1234''
      = (Inr True, snd (reset_password (demo_env 10 ''n'') demo_db ''T1'' ''newpass1234''))"
    by (simp add: prod_eq_iff)
  have x: "''T1'' \<in> set (map rt_token (reset_tokens demo_db))"
          "rt_expires_at demo_reset_token \<le> utcnow (demo_env 3600000000 ''n'')"
          "\<forall>r\<in>set (reset_tokens demo_db). rt_token r = ''T1'' \<longrightarrow>
              rt_expires_at r \<le> utcnow (demo_env 3600000000 ''n'')"
    by (simp_all add: demo_defs)
  have 1: "reset_password (demo_env 30 ''n'')
        (run (snd (reset_password (demo_env 10 ''n'') demo_db ''T1'' ''newpass1234'')) demo_calls)
        ''T1'' ''third1234''
       = (Inr False,
          run (snd (reset_password (demo_env 10 ''n'') demo_db ''T1'' ''newpass1234'')) demo_calls)"
    using reset_token_single_use[OF demo_unique, THEN conjunct1, rule_format, OF s'] .
  have 2: "reset_password (demo_env 3600000000 ''n'') (run demo_db demo_calls) ''T1'' ''third1234''
       = (Inr False, run demo_db demo_calls)"
    using reset_token_single_use[OF demo_unique, THEN conjunct2, rule_format, OF conjI, OF x(1) x(3)] .
  from s 1 2 x(1,2) demo_unique show ?thesis by simp
qed

section \<open>Consuming a reset token\<close>

text \<open>
  Claim C2: with the unique keys of the schema, \<open>reset_password\<close> succeeds exactly
  when a stored reset token has the given token string, expires strictly after the
  clock, is not used and belongs to a stored user. On success that user's
  \<open>hashed_password\<close> is the hash of the new password and the token is marked used, both
  in the one database that the call returns; otherwise the call answers \<open>False\<close> and
  the database is unchanged.
\<close>

theorem reset_password_iff:
  assumes "unique_keys db"
  shows "(\<forall>r\<in>set (reset_tokens db).
            rt_token r = tok \<and> utcnow e < rt_expires_at r \<and> \<not> is_used r \<and>
            rt_user_id r \<in> set (map uid (users db)) \<longrightarrow>
            reset_password e db tok new_password =
              (Inr True,
               db\<lparr>users := map (\<lambda>x. if uid x = rt_user_id r
                                      then x\<lparr>hashed_password := hash_password e new_password,
                                             user_updated_at := utcnow e\<rparr>
                                      else x) (users db),
                  reset_tokens := map (\<lambda>x. if rt_token x = tok then x\<lparr>is_used := True\<rparr> else x)
                                      (reset_tokens db)\<rparr>))
       \<and> (\<not> (\<exists>r\<in>set (reset_tokens db).
               rt_token r = tok \<and> utcnow e < rt_expires_at r \<and> \<not> is_used r \<and>
               rt_user_id r \<in> set (map uid (users db))) \<longrightarrow>
            reset_password e db tok new_password = (Inr False, db))"
proof (intro conjI ballI impI)
  from assms have d: "distinct (map rt_token (reset_tokens db))" "distinct (map rt_id (reset_tokens db))"
      "distinct (map uid (users db))"
    by (simp_all add: unique_keys_def)
  {
    fix r assume r: "r \<in> set (reset_tokens db)"
      and h: "rt_token r = tok \<and> utcnow e < rt_expires_at r \<and> \<not> is_used r \<and>
            rt_user_id r \<in> set (map uid (users db))"
    from h obtain u where u: "u \<in> set (users db)" "uid u = rt_user_id r" by auto
    have f: "filter (\<lambda>y. rt_token y = rt_token r \<and> utcnow e < rt_expires_at y \<and> is_used y = False)
               (reset_tokens db) = [r]"
      using d(1) r h by (intro filter_key_P_one) auto
    have g: "filter (\<lambda>y. uid y = uid u) (users db) = [u]"
      using d(3) u(1) by (rule filter_key_one)
    have m: "map (\<lambda>x. if rt_id x = rt_id r then x\<lparr>is_used := True\<rparr> else x) (reset_tokens db)
           = map (\<lambda>x. if rt_token x = tok then x\<lparr>is_used := True\<rparr> else x) (reset_tokens db)"
      by (rule map_cong) (use d(1,2) r h in \<open>auto simp: distinct_map inj_on_def\<close>)
    from h f g u m
    show "reset_password e db tok new_password =
              (Inr True,
               db\<lparr>users := map (\<lambda>x. if uid x = rt_user_id r
                                      then x\<lparr>hashed_password := hash_password e new_password,
                                             user_updated_at := utcnow e\<rparr>
                                      else x) (users db),
                  reset_tokens := map (\<lambda>x. if rt_token x = tok then x\<lparr>is_used := True\<rparr> else x)
                                      (reset_tokens db)\<rparr>)"
      by (simp add: reset_password_def Let_def)
  }
  {
    assume n: "\<not> (\<exists>r\<in>set (reset_tokens db).
               rt_token r = tok \<and> utcnow e < rt_expires_at r \<and> \<not> is_used r \<and>
               rt_user_id r \<in> set (map uid (users db)))"
    show "reset_password e db tok new_password = (Inr False, db)"
    proof (cases "\<exists>r\<in>set (reset_tokens db). rt_token r = tok \<and> utcnow e < rt_expires_at r \<and> is_used r = False")
      case False
      have "filter (\<lambda>y. rt_token y = tok \<and> utcnow e < rt_expires_at y \<and> is_used y = False)
               (reset_tokens db) = []"
        using d(1) False by (rule filter_key_P_none)
      then show ?thesis by (simp add: reset_password_def)
    next
      case True
      then obtain r where r: "r \<in> set (reset_tokens db)" "rt_token r = tok"
         "utcnow e < rt_expires_at r" "is_used r = False" by auto
      have f: "filter (\<lambda>y. rt_token y = rt_token r \<and> utcnow e < rt_expires_at y \<and> is_used y = False)
               (reset_tokens db) = [r]"
        using d(1) r by (intro filter_key_P_one) auto
      from n r have "rt_user_id r \<notin> set (map uid (users db))" by auto
      then have "filter (\<lambda>y. uid y = rt_user_id r) (users db) = []" by (rule filter_key_none)
      with f r show ?thesis by (simp add: reset_password_def)
    qed
  }
qed

theorem reset_password_iff_witness:
  "unique_keys demo_db
   \<and> reset_password (demo_env 10 ''n'') demo_db ''T1'' ''newpass1234''
       = (Inr True,
          demo_db\<lparr>users := [alice\<lparr>hashed_password := ''$2b$newpass1234'', user_updated_at := 10\<rparr>],
                  reset_tokens := [demo_reset_token\<lparr>is_used := True\<rparr>]\<rparr>)
   \<and> reset_password (demo_env 3600000000 ''n'') demo_db ''T1'' ''newpass1234'' = (Inr False, demo_db)
   \<and> reset_password (demo_env 10 ''n'') demo_db ''T2'' ''newpass1234'' = (Inr False, demo_db)"
proof -
  note r = reset_password_iff[OF demo_unique]
  have 1: "reset_password (demo_env 10 ''n'') demo_db ''T1'' ''newpass1234''
       = (Inr True,
          demo_db\<lparr>users := [alice\<lparr>hashed_password := ''$2b$newpass1234'', user_updated_at := 10\<rparr>],
                  reset_tokens := [demo_reset_token\<lparr>is_used := True\<rparr>]\<rparr>)"
    using r[of "''T1''" "demo_env 10 ''n''" "''newpass1234''", THEN conjunct1, rule_format,
        OF demo_reset_token_in]
    by (simp add: demo_defs hash_password_def)
  have 2: "reset_password (demo_env 3600000000 ''n'') demo_db ''T1'' ''newpass1234'' = (Inr False, demo_db)"
    using r[of "''T1''" "demo_env 3600000000 ''n''" "''newpass1234''", THEN conjunct2]
    by (simp add: demo_defs)
  have 3: "reset_password (demo_env 10 ''n'') demo_db ''T2'' ''newpass1234'' = (Inr False, demo_db)"
    using r[of "''T2''" "demo_env 10 ''n''" "''newpass1234''", THEN conjunct2]
    by (simp add: demo_defs)
  from 1 2 3 demo_unique show ?thesis by simp
qed

section \<open>Authentication\<close>

text \<open>
  Claim C3 fails on the code. The database that \<open>create_user\<close> leaves after a
  registration with a first name of 101 characters holds that user, and for it the right
  email and password make \<open>authenticate_user\<close> raise the validation error of
  \<open>UserResponse.model_validate\<close> instead of returning the public view. The database
  is unchanged.
\<close>

theorem authenticate_user_raises_for_stored_user:
  "create_user (demo_env 10 ''n'') demo_db carol_data = (Inl ValidationError, db_long)
   \<and> carol \<in> set (users db_long)
   \<and> email carol = ''carol@example.com''
   \<and> checkpw (demo_env 30 ''n'') ''pw87654321'' (hashed_password carol)
   \<and> authenticate_user (demo_env 30 ''n'') db_long ''carol@example.com'' ''pw87654321''
       = (Inl ValidationError, db_long)"
  by (simp add: db_long_reached)
     (simp add: authenticate_user_def verify_password_def model_validate_def fields_ok_def
        scalar_one_or_none_def demo_defs long_defs)

text \<open>
  For stored users within the declared field bounds the operation does what is claimed:
  the public view exactly when email and password match, \<open>None\<close> for an unknown email
  and for a wrong password, and no write in any case.
\<close>

lemma authenticate_user_within_bounds:
  assumes "unique_keys db" and "views_ok db"
  shows "(\<forall>u\<in>set (users db). email u = em \<and> checkpw e password (hashed_password u) \<longrightarrow>
            authenticate_user e db em password = (Inr (Some (public_view u)), db))
       \<and> (\<not> (\<exists>u\<in>set (users db). email u = em \<and> checkpw e password (hashed_password u)) \<longrightarrow>
            authenticate_user e db em password = (Inr None, db))
       \<and> snd (authenticate_user e db em password) = db"
proof (intro conjI ballI impI)
  from assms(1) have d: "distinct (map email (users db))" by (simp add: unique_keys_def)
  {
    fix u assume u: "u \<in> set (users db)" and h: "email u = em \<and> checkpw e password (hashed_password u)"
    have "filter (\<lambda>y. email y = email u) (users db) = [u]" using d u by (rule filter_key_one)
    with h views_okD[OF assms(2) u]
    show "authenticate_user e db em password = (Inr (Some (public_view u)), db)"
      by (auto simp: authenticate_user_def verify_password_def model_validate_ok)
  }
  {
    assume n: "\<not> (\<exists>u\<in>set (users db). email u = em \<and> checkpw e password (hashed_password u))"
    show "authenticate_user e db em password = (Inr None, db)"
    proof (cases "em \<in> set (map email (users db))")
      case False
      then show ?thesis using filter_key_none[OF False]
        by (simp add: authenticate_user_def)
    next
      case True
      then obtain u where u: "u \<in> set (users db)" "email u = em" by auto
      have "filter (\<lambda>y. email y = email u) (users db) = [u]" using d u(1) by (rule filter_key_one)
      with u n show ?thesis
        by (auto simp: authenticate_user_def verify_password_def)
    qed
  }
  show "snd (authenticate_user e db em password) = db"
    by (simp add: authenticate_user_def split: sum.splits option.splits)
qed

lemma authenticate_user_within_bounds_example:
  "unique_keys demo_db \<and> views_ok demo_db
   \<and> authenticate_user (demo_env 10 ''n'') demo_db ''alice@example.com'' ''pw12345678''
       = (Inr (Some (public_view alice)), demo_db)
   \<and> authenticate_user (demo_env 10 ''n'') demo_db ''alice@example.com'' ''wrongpw''
       = (Inr None, demo_db)
   \<and> authenticate_user (demo_env 10 ''n'') demo_db ''bob@example.com'' ''pw12345678''
       = (Inr None, demo_db)"
proof -
  note r = authenticate_user_within_bounds[OF demo_unique demo_views]
  have 1: "authenticate_user (demo_env 10 ''n'') demo_db ''alice@example.com'' ''pw12345678''
       = (Inr (Some (public_view alice)), demo_db)"
    using r[of "''alice@example.com''" "demo_env 10 ''n''" "''pw12345678''", THEN conjunct1,
        rule_format, OF demo_alice_in]
    by (simp add: demo_defs)
  have 2: "authenticate_user (demo_env 10 ''n'') demo_db ''alice@example.com'' ''wrongpw''
       = (Inr None, demo_db)"
    using r[of "''alice@example.com''" "demo_env 10 ''n''" "''wrongpw''", THEN conjunct2, THEN conjunct1]
    by (simp add: demo_defs)
  have 3: "authenticate_user (demo_env 10 ''n'') demo_db ''bob@example.com'' ''pw12345678''
       = (Inr None, demo_db)"
    using r[of "''bob@example.com''" "demo_env 10 ''n''" "''pw12345678''", THEN conjunct2, THEN conjunct1]
    by (simp add: demo_defs)
  from 1 2 3 demo_unique demo_views show ?thesis by simp
qed

section \<open>Session resolution\<close>

text \<open>
  Claim C4, as amended: with the unique keys of the schema, \<open>get_session_by_token\<close>
  gives the absent result exactly when no stored session has the token and expires
  strictly after the clock, or the session that does has no stored owner; so a missing
  session, an expired session and a session without owner give the same result. When the
  owner is stored and within the declared field bounds, the result is the session joined
  with the owner's public view. The database is unchanged in every case. The claim as
  stated fails: \<open>create_session\<close> commits its row before it looks the user up, the
  store does not enforce the foreign key, and the guard \<open>if not user\<close> then answers
  \<open>None\<close> for a matching, unexpired session.
\<close>

theorem get_session_by_token_result:
  assumes "unique_keys db"
  shows "((fst (get_session_by_token e db tok) = Inr None) =
            (\<not> (\<exists>s\<in>set (sessions db). token s = tok \<and> utcnow e < expires_at s \<and>
                   user_id s \<in> set (map uid (users db)))))
       \<and> (\<forall>s\<in>set (sessions db). \<forall>u\<in>set (users db).
            token s = tok \<and> utcnow e < expires_at s \<and> uid u = user_id s \<and> fields_ok u \<longrightarrow>
            get_session_by_token e db tok =
              (Inr (Some \<lparr>sr_id = session_id s, sr_token = token s, sr_user_id = user_id s,
                          sr_created_at = created_at s, sr_expires_at = expires_at s,
                          sr_user = public_view u\<rparr>), db))
       \<and> snd (get_session_by_token e db tok) = db"
proof (intro conjI ballI impI)
  from assms have d: "distinct (map token (sessions db))" "distinct (map uid (users db))"
    by (simp_all add: unique_keys_def)
  show "(fst (get_session_by_token e db tok) = Inr None) =
            (\<not> (\<exists>s\<in>set (sessions db). token s = tok \<and> utcnow e < expires_at s \<and>
                   user_id s \<in> set (map uid (users db))))"
  proof (cases "\<exists>s\<in>set (sessions db). token s = tok \<and> utcnow e < expires_at s")
    case False
    then have "get_session_by_token e db tok = (Inr None, db)"
      using d(1) by (intro get_session_by_token_unmatched)
    with False show ?thesis by auto
  next
    case True
    then obtain s where s: "s \<in> set (sessions db)" "token s = tok" "utcnow e < expires_at s"
      by auto
    have only: "\<And>x. x \<in> set (sessions db) \<Longrightarrow> token x = tok \<Longrightarrow> x = s"
      using d(1) s(1,2) by (auto simp: distinct_map inj_on_def)
    show ?thesis
    proof (cases "user_id s \<in> set (map uid (users db))")
      case False
      have "get_session_by_token e db (token s) = (Inr None, db)"
        using d(1) s(1,3) False by (rule get_session_by_token_orphan)
      with s(2) False only show ?thesis by auto
    next
      case True
      then obtain u where u: "u \<in> set (users db)" "uid u = user_id s" by auto
      have "get_session_by_token e db (token s) =
         (map_sum id
            (\<lambda>v. Some \<lparr>sr_id = session_id s, sr_token = token s, sr_user_id = user_id s,
                        sr_created_at = created_at s, sr_expires_at = expires_at s, sr_user = v\<rparr>)
            (model_validate u), db)"
        using d s(1,3) u by (rule get_session_by_token_stored)
      then have "fst (get_session_by_token e db tok) \<noteq> Inr None"
        using s(2) by (cases "model_validate u") auto
      with True s show ?thesis by auto
    qed
  qed
  {
    fix s u assume s: "s \<in> set (sessions db)" and u: "u \<in> set (users db)"
      and h: "token s = tok \<and> utcnow e < expires_at s \<and> uid u = user_id s \<and> fields_ok u"
    have "get_session_by_token e db (token s) =
         (map_sum id
            (\<lambda>v. Some \<lparr>sr_id = session_id s, sr_token = token s, sr_user_id = user_id s,
                        sr_created_at = created_at s, sr_expires_at = expires_at s, sr_user = v\<rparr>)
            (model_validate u), db)"
      using d s u h by (intro get_session_by_token_stored) auto
    with h show "get_session_by_token e db tok =
              (Inr (Some \<lparr>sr_id = session_id s, sr_token = token s, sr_user_id = user_id s,
                          sr_created_at = created_at s, sr_expires_at = expires_at s,
                          sr_user = public_view u\<rparr>), db)"
      by (auto simp: model_validate_ok)
  }
  show "snd (get_session_by_token e db tok) = db"
    by (rule snd_get_session_by_token)
qed

theorem get_session_by_token_result_witness:
  "unique_keys demo_db \<and> unique_keys db_orphan
   \<and> get_session_by_token (demo_env 86399999999 ''n'') demo_db ''S1''
       = (Inr (Some \<lparr>sr_id = 1, sr_token = ''S1'', sr_user_id = 1, sr_created_at = 0,
                      sr_expires_at = 86400000000, sr_user = public_view alice\<rparr>), demo_db)
   \<and> fst (get_session_by_token (demo_env 86400000000 ''n'') demo_db ''S1'') = Inr None
   \<and> fst (get_session_by_token (demo_env 20 ''n'') demo_db ''S2'') = Inr None
   \<and> fst (get_session_by_token (demo_env 20 ''n'') db_orphan ''S9'') = Inr None
   \<and> fst (get_session_by_token (demo_env 20 ''n'') demo_db ''S1'') \<noteq> Inr None"
proof -
  note r = get_session_by_token_result[OF demo_unique]
  note o = get_session_by_token_result[OF orphan_unique]
  have f: "token demo_session = ''S1'' \<and> utcnow (demo_env 86399999999 ''n'') < expires_at demo_session
       \<and> uid alice = user_id demo_session \<and> fields_ok alice"
    by (simp add: fields_ok_def demo_defs)
  have 1: "get_session_by_token (demo_env 86399999999 ''n'') demo_db ''S1''
       = (Inr (Some \<lparr>sr_id = 1, sr_token = ''S1'', sr_user_id = 1, sr_created_at = 0,
                      sr_expires_at = 86400000000, sr_user = public_view alice\<rparr>), demo_db)"
    using r[where tok = "''S1''" and e = "demo_env 86399999999 ''n''", THEN conjunct2,
        THEN conjunct1, rule_format, OF demo_session_in demo_alice_in f]
    by (simp add: demo_defs)
  have 2: "fst (get_session_by_token (demo_env 86400000000 ''n'') demo_db ''S1'') = Inr None"
    using r[where tok = "''S1''" and e = "demo_env 86400000000 ''n''", THEN conjunct1]
    by (simp add: demo_defs)
  have 3: "fst (get_session_by_token (demo_env 20 ''n'') demo_db ''S2'') = Inr None"
    using r[where tok = "''S2''" and e = "demo_env 20 ''n''", THEN conjunct1]
    by (simp add: demo_defs)
  have 4: "fst (get_session_by_token (demo_env 20 ''n'') db_orphan ''S9'') = Inr None"
    using o[where tok = "''S9''" and e = "demo_env 20 ''n''", THEN conjunct1]
    by (simp add: demo_defs long_defs)
  have 5: "fst (get_session_by_token (demo_env 20 ''n'') demo_db ''S1'') \<noteq> Inr None"
    using r[where tok = "''S1''" and e = "demo_env 20 ''n''", THEN conjunct1]
    by (simp add: demo_defs)
  from 1 2 3 4 5 demo_unique orphan_unique show ?thesis by simp
qed

theorem get_session_by_token_orphan_counterexample:
  "create_session (demo_env 10 ''S9'') demo_db 99 = (Inl ValidationError, db_orphan)
   \<and> orphan_session \<in> set (sessions db_orphan)
   \<and> token orphan_session = ''S9''
   \<and> utcnow (demo_env 20 ''n'') < expires_at orphan_session
   \<and> get_session_by_token (demo_env 20 ''n'') db_orphan ''S9'' = (Inr None, db_orphan)"
  by (simp add: create_session_def get_session_by_token_def get_user_by_id_def add_session_def
        next_id_def scalar_one_or_none_def timedelta_hours_def Let_def demo_defs long_defs)

section \<open>Session termination\<close>

lemma delete_session_eq:
  assumes "unique_keys db"
  shows "delete_session e db tok =
     (Inr (tok \<in> set (map token (sessions db))),
      db\<lparr>sessions := filter (\<lambda>s. token s \<noteq> tok) (sessions db)\<rparr>)"
proof (cases "tok \<in> set (map token (sessions db))")
  case False
  then have "filter (\<lambda>s. token s = tok) (sessions db) = []" by (rule filter_key_none)
  moreover from False have "filter (\<lambda>s. token s \<noteq> tok) (sessions db) = sessions db"
    by (auto simp: filter_id_conv)
  ultimately show ?thesis using False
    by (simp add: delete_session_def scalar_one_or_none_def)
next
  case True
  then obtain s where s: "s \<in> set (sessions db)" "token s = tok" by auto
  from assms have d: "distinct (map token (sessions db))" "distinct (map session_id (sessions db))"
    by (simp_all add: unique_keys_def)
  have "filter (\<lambda>y. token y = token s) (sessions db) = [s]"
    using d(1) s(1) by (rule filter_key_one)
  moreover have "filter (\<lambda>y. session_id y \<noteq> session_id s) (sessions db)
      = filter (\<lambda>y. token y \<noteq> tok) (sessions db)"
    using d(2) s(1) s(2) d(1) by (rule filter_key_neq)
  ultimately show ?thesis using True s
    by (simp add: delete_session_def scalar_one_or_none_def delete_row_def)
qed

text \<open>
  Claim C5, as amended: with the unique keys of the schema, \<open>delete_session\<close> answers
  whether a session with that token is stored, expired or not, and removes exactly that
  session; a second call with the same token right after answers \<open>False\<close> and changes
  nothing. The claim as stated, that a session whose expiry has passed gives
  \<open>False\<close>, fails: \<open>delete_session\<close> does not read \<open>expires_at\<close>.
\<close>

theorem delete_session_result:
  assumes "unique_keys db"
  shows "delete_session e db tok =
           (Inr (tok \<in> set (map token (sessions db))),
            db\<lparr>sessions := filter (\<lambda>s. token s \<noteq> tok) (sessions db)\<rparr>)
       \<and> delete_session e' (snd (delete_session e db tok)) tok =
           (Inr False, snd (delete_session e db tok))"
proof -
  have first: "delete_session e db tok =
           (Inr (tok \<in> set (map token (sessions db))),
            db\<lparr>sessions := filter (\<lambda>s. token s \<noteq> tok) (sessions db)\<rparr>)"
    using assms by (rule delete_session_eq)
  have "tok \<notin> set (map token (sessions (snd (delete_session e db tok))))"
    by (auto simp: first)
  then have "filter (\<lambda>s. token s = tok) (sessions (snd (delete_session e db tok))) = []"
    by (rule filter_key_none)
  then have "delete_session e' (snd (delete_session e db tok)) tok =
           (Inr False, snd (delete_session e db tok))"
    by (simp add: delete_session_def)
  with first show ?thesis by simp
qed

theorem delete_session_result_witness:
  "unique_keys demo_db
   \<and> delete_session (demo_env 10 ''n'') demo_db ''S1'' = (Inr True, demo_db\<lparr>sessions := []\<rparr>)
   \<and> delete_session (demo_env 11 ''n'') (snd (delete_session (demo_env 10 ''n'') demo_db ''S1'')) ''S1''
       = (Inr False, demo_db\<lparr>sessions := []\<rparr>)"
proof -
  have t: "''S1'' \<in> set (map token (sessions demo_db))" by (simp add: demo_defs)
  have f: "filter (\<lambda>s. token s \<noteq> ''S1'') (sessions demo_db) = []" by (simp add: demo_defs)
  note r = delete_session_result[OF demo_unique, of "demo_env 10 ''n''" "''S1''" "demo_env 11 ''n''"]
  have 1: "delete_session (demo_env 10 ''n'') demo_db ''S1'' = (Inr True, demo_db\<lparr>sessions := []\<rparr>)"
    using r[THEN conjunct1] t f by simp
  have 2: "delete_session (demo_env 11 ''n'') (snd (delete_session (demo_env 10 ''n'') demo_db ''S1'')) ''S1''
       = (Inr False, snd (delete_session (demo_env 10 ''n'') demo_db ''S1''))"
    by (rule r[THEN conjunct2])
  from 2 show ?thesis by (simp add: 1 demo_unique)
qed

theorem delete_session_expired_counterexample:
  "demo_session \<in> set (sessions demo_db)
   \<and> expires_at demo_session < utcnow (demo_env 86400000001 ''n'')
   \<and> fst (delete_session (demo_env 86400000001 ''n'') demo_db (token demo_session)) = Inr True"
  by (simp add: delete_session_def scalar_one_or_none_def demo_defs)

section \<open>Requesting a reset token\<close>

text \<open>
  Claim C6 fails on the code. On the database that \<open>create_user\<close> leaves after a
  registration with a first name of 101 characters, a reset request for the stored email,
  with a token not yet stored, raises the validation error of
  \<open>UserResponse.model_validate\<close> in \<open>get_user_by_email\<close>: no token is stored and
  nothing is returned.
\<close>

theorem create_password_reset_token_raises_for_stored_user:
  "create_user (demo_env 10 ''n'') demo_db carol_data = (Inl ValidationError, db_long)
   \<and> ''carol@example.com'' \<in> set (map email (users db_long))
   \<and> token_urlsafe (demo_env 30 ''T2'') \<notin> set (map rt_token (reset_tokens db_long))
   \<and> create_password_reset_token (demo_env 30 ''T2'') db_long ''carol@example.com''
       = (Inl ValidationError, db_long)"
  by (simp add: db_long_reached)
     (simp add: create_password_reset_token_def get_user_by_email_def model_validate_def
        fields_ok_def scalar_one_or_none_def demo_defs long_defs)

text \<open>
  For stored users within the declared field bounds the operation does what is claimed:
  \<open>False\<close> and no change for an unknown email; for a stored email and a token not yet
  stored, one new unused token that expires one hour after the clock and \<open>True\<close>,
  whether the email was sent or not.
\<close>

lemma create_password_reset_token_within_bounds:
  assumes "unique_keys db" and "views_ok db"
  shows "(em \<notin> set (map email (users db)) \<longrightarrow>
            create_password_reset_token (e\<lparr>email_sent := sent\<rparr>) db em = (Inr False, db))
       \<and> (\<forall>u\<in>set (users db).
            email u = em \<and> token_urlsafe e \<notin> set (map rt_token (reset_tokens db)) \<longrightarrow>
            create_password_reset_token (e\<lparr>email_sent := sent\<rparr>) db em =
              (Inr True,
               db\<lparr>reset_tokens := reset_tokens db @
                    [\<lparr>rt_id = next_id (map rt_id (reset_tokens db)),
                      rt_token = token_urlsafe e, rt_user_id = uid u,
                      rt_created_at = utcnow e, rt_expires_at = utcnow e + 3600000000,
                      is_used = False\<rparr>]\<rparr>))"
proof (intro conjI ballI impI)
  from assms(1) have d: "distinct (map email (users db))" by (simp add: unique_keys_def)
  {
    assume "em \<notin> set (map email (users db))"
    then have "get_user_by_email db em = Inr None" by (rule get_user_by_email_none)
    then show "create_password_reset_token (e\<lparr>email_sent := sent\<rparr>) db em = (Inr False, db)"
      by (simp add: create_password_reset_token_def)
  }
  {
    fix u assume u: "u \<in> set (users db)"
      and h: "email u = em \<and> token_urlsafe e \<notin> set (map rt_token (reset_tokens db))"
    have "get_user_by_email db (email u) = Inr (Some (public_view u))"
      using d assms(2) u by (rule get_user_by_email_some)
    with h show "create_password_reset_token (e\<lparr>email_sent := sent\<rparr>) db em =
              (Inr True,
               db\<lparr>reset_tokens := reset_tokens db @
                    [\<lparr>rt_id = next_id (map rt_id (reset_tokens db)),
                      rt_token = token_urlsafe e, rt_user_id = uid u,
                      rt_created_at = utcnow e, rt_expires_at = utcnow e + 3600000000,
                      is_used = False\<rparr>]\<rparr>)"
      by (simp add: create_password_reset_token_def add_reset_token_def Let_def
            timedelta_hours_1 public_view_def)
  }
qed

lemma create_password_reset_token_within_bounds_example:
  "unique_keys demo_db \<and> views_ok demo_db
   \<and> create_password_reset_token (demo_env 10 ''T2'') demo_db ''bob@example.com''
       = (Inr False, demo_db)
   \<and> email_sent (demo_env 10 ''T2'') = False
   \<and> create_password_reset_token (demo_env 10 ''T2'') demo_db ''alice@example.com''
       = (Inr True,
          demo_db\<lparr>reset_tokens :=
            [demo_reset_token,
             \<lparr>rt_id = 2, rt_token = ''T2'', rt_user_id = 1, rt_created_at = 10,
              rt_expires_at = 3600000010, is_used = False\<rparr>]\<rparr>)"
proof -
  note r = create_password_reset_token_within_bounds[OF demo_unique demo_views,
      where e = "demo_env 10 ''T2''" and sent = False]
  have e: "(demo_env 10 ''T2'')\<lparr>email_sent := False\<rparr> = demo_env 10 ''T2''"
    by (simp add: demo_env_def)
  have 1: "create_password_reset_token (demo_env 10 ''T2'') demo_db ''bob@example.com''
       = (Inr False, demo_db)"
    using r[where em = "''bob@example.com''", THEN conjunct1] unfolding e
    by (simp add: demo_defs)
  have 2: "create_password_reset_token (demo_env 10 ''T2'') demo_db ''alice@example.com''
       = (Inr True,
          demo_db\<lparr>reset_tokens :=
            [demo_reset_token,
             \<lparr>rt_id = 2, rt_token = ''T2'', rt_user_id = 1, rt_created_at = 10,
              rt_expires_at = 3600000010, is_used = False\<rparr>]\<rparr>)"
    using r[where em = "''alice@example.com''", THEN conjunct2, rule_format, OF demo_alice_in] unfolding e
    by (simp add: demo_defs next_id_def)
  from 1 2 demo_unique demo_views show ?thesis by (simp add: demo_env_def)
qed

section \<open>Registration\<close>

text \<open>
  Claim C7 fails on the code. A registration with a new email and a first name of 101
  characters is committed, and then \<open>UserResponse.model_validate\<close> rejects the stored
  row: \<open>create_user\<close> raises after the commit instead of returning the view. The bound
  of 100 characters is declared in \<open>UserBase\<close> and checked by neither
  \<open>UserCreate\<close> nor the table class. A second registration with the same email then
  raises the same validation error, not \<open>ValueError("Email already registered")\<close>.
\<close>

theorem create_user_commits_then_raises:
  "uc_email carol_data \<notin> set (map email (users demo_db))
   \<and> length (uc_first_name carol_data) = 101
   \<and> create_user (demo_env 10 ''n'') demo_db carol_data = (Inl ValidationError, db_long)
   \<and> users db_long = users demo_db @ [carol]
   \<and> uc_email carol_data \<in> set (map email (users db_long))
   \<and> create_user (demo_env 20 ''n'') db_long carol_data = (Inl ValidationError, db_long)"
  by (simp add: create_user_def get_user_by_email_def add_user_def next_id_def
        model_validate_def fields_ok_def hash_password_def scalar_one_or_none_def Let_def
        demo_defs long_defs)

text \<open>
  For stored users and registrations within the declared field bounds the operation does
  what is claimed: the duplicate error exactly when the email is stored, and nothing
  stored then; otherwise exactly one new user, active, with the given role or
  \<open>user\<close>, and its public view returned.
\<close>

lemma create_user_within_bounds:
  assumes "unique_keys db" and "views_ok db"
  shows "((fst (create_user e db user_data) = Inl (ValueError ''Email already registered''))
            = (uc_email user_data \<in> set (map email (users db))))
       \<and> (uc_email user_data \<in> set (map email (users db)) \<longrightarrow>
            snd (create_user e db user_data) = db)
       \<and> (uc_email user_data \<notin> set (map email (users db)) \<longrightarrow>
            (\<exists>row. snd (create_user e db user_data) = db\<lparr>users := users db @ [row]\<rparr> \<and>
               email row = uc_email user_data \<and> is_active row \<and>
               role row = (case uc_role user_data of None \<Rightarrow> role_user | Some r \<Rightarrow> r) \<and>
               hashed_password row = hash_password e (uc_password user_data) \<and>
               uid row \<notin> set (map uid (users db)) \<and>
               (length (uc_first_name user_data) \<le> 100 \<and> length (uc_last_name user_data) \<le> 100 \<and>
                length (uc_phone_number user_data) \<le> 20 \<longrightarrow>
                  fst (create_user e db user_data) = Inr (public_view row))))"
proof -
  from assms(1) have d: "distinct (map email (users db))" by (simp add: unique_keys_def)
  show ?thesis
  proof (cases "uc_email user_data \<in> set (map email (users db))")
    case True
    then obtain u where u: "u \<in> set (users db)" "email u = uc_email user_data" by auto
    have "get_user_by_email db (email u) = Inr (Some (public_view u))"
      using d assms(2) u(1) by (rule get_user_by_email_some)
    with u True show ?thesis by (simp add: create_user_def)
  next
    case False
    then have g: "get_user_by_email db (uc_email user_data) = Inr None"
      by (rule get_user_by_email_none)
    define row :: User where "row =
       \<lparr>email = uc_email user_data,
        phone_country = Some (uc_phone_country user_data),
        phone_number = Some (uc_phone_number user_data),
        is_active = True, is_admin = False,
        role = (case uc_role user_data of None \<Rightarrow> role_user | Some r \<Rightarrow> r),
        first_name = uc_first_name user_data, last_name = uc_last_name user_data,
        uid = next_id (map uid (users db)),
        hashed_password = hash_password e (uc_password user_data),
        user_created_at = utcnow e, user_updated_at = utcnow e\<rparr>"
    have c: "create_user e db user_data =
       (model_validate row, db\<lparr>users := users db @ [row]\<rparr>)"
      using False g
      by (simp add: create_user_def add_user_def Let_def row_def split: sum.splits)
    have fresh: "uid row \<notin> set (map uid (users db))"
      using next_id_fresh[of "map uid (users db)"] by (simp add: row_def)
    have ne: "model_validate row \<noteq> Inl (ValueError ''Email already registered'')"
      by (simp add: model_validate_def)
    have ok: "length (uc_first_name user_data) \<le> 100 \<and> length (uc_last_name user_data) \<le> 100 \<and>
                length (uc_phone_number user_data) \<le> 20 \<Longrightarrow> model_validate row = Inr (public_view row)"
      by (simp add: model_validate_def fields_ok_def row_def)
    have props: "email row = uc_email user_data \<and> is_active row \<and>
               role row = (case uc_role user_data of None \<Rightarrow> role_user | Some r \<Rightarrow> r) \<and>
               hashed_password row = hash_password e (uc_password user_data)"
      by (simp add: row_def)
    from False c fresh ne ok props show ?thesis
      by (intro conjI impI exI[of _ row]) simp_all
  qed
qed

lemma create_user_within_bounds_example:
  "unique_keys demo_db \<and> views_ok demo_db
   \<and> create_user (demo_env 10 ''n'') demo_db (bob_data\<lparr>uc_email := ''alice@example.com''\<rparr>)
       = (Inl (ValueError ''Email already registered''), demo_db)
   \<and> create_user (demo_env 10 ''n'') demo_db bob_data
       = (Inr (public_view bob), demo_db\<lparr>users := [alice, bob]\<rparr>)"
proof -
  note r = create_user_within_bounds[OF demo_unique demo_views, where e = "demo_env 10 ''n''"]
  have 1: "create_user (demo_env 10 ''n'') demo_db (bob_data\<lparr>uc_email := ''alice@example.com''\<rparr>)
       = (Inl (ValueError ''Email already registered''), demo_db)"
    using r[where user_data = "bob_data\<lparr>uc_email := ''alice@example.com''\<rparr>"]
    by (simp add: demo_defs bob_data_def prod_eq_iff)
  have n: "uc_email bob_data \<notin> set (map email (users demo_db))"
    by (simp add: demo_defs bob_data_def)
  have l: "length (uc_first_name bob_data) \<le> 100 \<and> length (uc_last_name bob_data) \<le> 100 \<and>
           length (uc_phone_number bob_data) \<le> 20"
    by (simp add: bob_data_def)
  from r[where user_data = bob_data, THEN conjunct2, THEN conjunct2, rule_format, OF n]
  obtain row where row: "snd (create_user (demo_env 10 ''n'') demo_db bob_data)
        = demo_db\<lparr>users := users demo_db @ [row]\<rparr>"
     "fst (create_user (demo_env 10 ''n'') demo_db bob_data) = Inr (public_view row)"
    using l by blast
  have c: "snd (create_user (demo_env 10 ''n'') demo_db bob_data) = demo_db\<lparr>users := [alice, bob]\<rparr>"
    by (simp add: create_user_def get_user_by_email_def add_user_def next_id_def
          model_validate_def fields_ok_def hash_password_def Let_def demo_defs bob_data_def bob_def)
  from row(1) c have "row = bob" by (simp add: demo_db_def)
  with row c have 2: "create_user (demo_env 10 ''n'') demo_db bob_data
       = (Inr (public_view bob), demo_db\<lparr>users := [alice, bob]\<rparr>)"
    by (simp add: prod_eq_iff)
  from 1 2 demo_unique demo_views show ?thesis by simp
qed

section \<open>A session resolves after its creation\<close>

text \<open>
  Claim C8 fails on the code. For the user that \<open>create_user\<close> stored with a first
  name of 101 characters, \<open>create_session\<close> with a token not yet stored commits the
  session, expiring 24 hours after the clock, and then raises the validation error of
  \<open>UserResponse.model_validate\<close>; \<open>get_session_by_token\<close> with that token, before
  the expiry, raises it too instead of returning the user's public view.
\<close>

theorem create_session_raises_for_stored_user:
  "create_user (demo_env 10 ''n'') demo_db carol_data = (Inl ValidationError, db_long)
   \<and> carol \<in> set (users db_long)
   \<and> token_urlsafe (demo_env 30 ''S2'') \<notin> set (map token (sessions db_long))
   \<and> create_session (demo_env 30 ''S2'') db_long (uid carol)
       = (Inl ValidationError, db_long\<lparr>sessions := [demo_session, carol_session]\<rparr>)
   \<and> utcnow (demo_env 30 ''n'') < expires_at carol_session
   \<and> get_session_by_token (demo_env 30 ''n'')
        (db_long\<lparr>sessions := [demo_session, carol_session]\<rparr>) ''S2''
       = (Inl ValidationError, db_long\<lparr>sessions := [demo_session, carol_session]\<rparr>)"
  by (simp add: db_long_reached)
     (simp add: create_session_def get_session_by_token_def get_user_by_id_def add_session_def
        next_id_def model_validate_def fields_ok_def scalar_one_or_none_def timedelta_hours_def
        Let_def demo_defs long_defs)

text \<open>
  For stored users within the declared field bounds the operations do what is claimed:
  the session expires exactly 24 hours after the clock and resolves to the same session,
  with the user's public view, at every clock before the expiry.
\<close>

lemma session_resolves_within_bounds:
  assumes "unique_keys db" and "views_ok db" and "u \<in> set (users db)"
    and "token_urlsafe e \<notin> set (map token (sessions db))"
  shows "\<exists>sr db1. create_session e db (uid u) = (Inr sr, db1) \<and>
           sr_token sr = token_urlsafe e \<and>
           sr_expires_at sr = utcnow e + 86400000000 \<and>
           sr_user_id sr = uid u \<and>
           sr_user sr = public_view u \<and>
           (utcnow e' < utcnow e + 86400000000 \<longrightarrow>
              get_session_by_token e' db1 (sr_token sr) = (Inr (Some sr), db1)) \<and>
           get_session_by_token (e'\<lparr>utcnow := utcnow e\<rparr>) db1 (sr_token sr) = (Inr (Some sr), db1)"
proof -
  from assms(1) have d: "distinct (map uid (users db))" by (simp add: unique_keys_def)
  define row :: Session where "row =
    \<lparr>session_id = next_id (map session_id (sessions db)), token = token_urlsafe e,
     user_id = uid u, created_at = utcnow e, expires_at = utcnow e + 86400000000\<rparr>"
  define db1 where "db1 = db\<lparr>sessions := sessions db @ [row]\<rparr>"
  define sr where "sr =
    \<lparr>sr_id = session_id row, sr_token = token row, sr_user_id = user_id row,
     sr_created_at = created_at row, sr_expires_at = expires_at row, sr_user = public_view u\<rparr>"
  have a: "add_session db \<lparr>session_id = 0, token = token_urlsafe e, user_id = uid u,
              created_at = utcnow e, expires_at = utcnow e + timedelta_hours 24\<rparr> = Inr (row, db1)"
    using assms(4) by (simp add: add_session_def row_def db1_def timedelta_hours_24 Let_def)
  have "distinct (map uid (users db1))" "views_ok db1" "u \<in> set (users db1)"
    using d assms(2,3) by (simp_all add: db1_def views_ok_def)
  then have g: "get_user_by_id db1 (uid u) = Inr (Some (public_view u))"
    by (rule get_user_by_id_some)
  have c: "create_session e db (uid u) = (Inr sr, db1)"
    using a g by (simp add: create_session_def Let_def sr_def)
  have old: "filter (\<lambda>s. token s = token_urlsafe e \<and> t < expires_at s) (sessions db) = []" for t
    using assms(4) by (force simp: filter_empty_conv image_iff)
  have r: "get_session_by_token x db1 (sr_token sr) = (Inr (Some sr), db1)"
    if "utcnow x < utcnow e + 86400000000" for x
  proof -
    have "filter (\<lambda>s. token s = token_urlsafe e \<and> utcnow x < expires_at s) (sessions db1) = [row]"
      using that by (simp add: db1_def old) (simp add: row_def)
    moreover have "user_id row = uid u" "token row = token_urlsafe e" by (simp_all add: row_def)
    ultimately show ?thesis using g
      by (simp add: get_session_by_token_def sr_def)
  qed
  have "sr_token sr = token_urlsafe e" "sr_expires_at sr = utcnow e + 86400000000"
       "sr_user sr = public_view u" "sr_user_id sr = uid u"
    by (simp_all add: sr_def row_def)
  with c r[of e'] r[of "e'\<lparr>utcnow := utcnow e\<rparr>"] show ?thesis by auto
qed

lemma session_resolves_within_bounds_example:
  "unique_keys demo_db \<and> views_ok demo_db \<and> alice \<in> set (users demo_db)
   \<and> token_urlsafe (demo_env 10 ''S2'') \<notin> set (map token (sessions demo_db))
   \<and> utcnow (demo_env 86400000009 ''n'') < utcnow (demo_env 10 ''S2'') + 86400000000
   \<and> (\<exists>sr db1. create_session (demo_env 10 ''S2'') demo_db (uid alice) = (Inr sr, db1)
         \<and> sr_expires_at sr = 86400000010 \<and> sr_user sr = public_view alice
         \<and> get_session_by_token (demo_env 86400000009 ''n'') db1 ''S2'' = (Inr (Some sr), db1))"
proof -
  have f: "token_urlsafe (demo_env 10 ''S2'') \<notin> set (map token (sessions demo_db))"
    by (simp add: demo_defs)
  have t: "utcnow (demo_env 86400000009 ''n'') < utcnow (demo_env 10 ''S2'') + 86400000000"
    by (simp add: demo_env_def)
  from session_resolves_within_bounds[OF demo_unique demo_views demo_alice_in f,
      where e' = "demo_env 86400000009 ''n''"]
  obtain sr db1 where
    "create_session (demo_env 10 ''S2'') demo_db (uid alice) = (Inr sr, db1)"
    "sr_token sr = token_urlsafe (demo_env 10 ''S2'')"
    "sr_expires_at sr = utcnow (demo_env 10 ''S2'') + 86400000000"
    "sr_user sr = public_view alice"
    "get_session_by_token (demo_env 86400000009 ''n'') db1 (sr_token sr) = (Inr (Some sr), db1)"
    using t by blast
  then have "create_session (demo_env 10 ''S2'') demo_db (uid alice) = (Inr sr, db1)
         \<and> sr_expires_at sr = 86400000010 \<and> sr_user sr = public_view alice
         \<and> get_session_by_token (demo_env 86400000009 ''n'') db1 ''S2'' = (Inr (Some sr), db1)"
    by (simp add: demo_env_def)
  then have "\<exists>sr db1. create_session (demo_env 10 ''S2'') demo_db (uid alice) = (Inr sr, db1)
         \<and> sr_expires_at sr = 86400000010 \<and> sr_user sr = public_view alice
         \<and> get_session_by_token (demo_env 86400000009 ''n'') db1 ''S2'' = (Inr (Some sr), db1)"
    by blast
  with demo_unique demo_views demo_alice_in f t show ?thesis by blast
qed

section \<open>The sweep of expired sessions\<close>

text \<open>
  Claim C9: with the unique keys of the schema, \<open>cleanup_expired_sessions\<close> returns
  the number of sessions whose expiry is at or before the clock and leaves the database
  with exactly the sessions that expire strictly after the clock; users and reset tokens
  are unchanged.
\<close>

theorem cleanup_expired_sessions_result:
  assumes "unique_keys db"
  shows "cleanup_expired_sessions e db =
     (Inr (length (filter (\<lambda>s. expires_at s \<le> utcnow e) (sessions db))),
      db\<lparr>sessions := filter (\<lambda>s. utcnow e < expires_at s) (sessions db)\<rparr>)"
proof -
  from assms have d: "distinct (map session_id (sessions db))" by (simp add: unique_keys_def)
  have "filter (\<lambda>x. session_id x \<notin> set (map session_id (filter (\<lambda>s. expires_at s \<le> utcnow e) (sessions db)))) (sessions db)
      = filter (\<lambda>s. utcnow e < expires_at s) (sessions db)"
    by (rule filter_cong) (use d in \<open>auto simp: distinct_map inj_on_def\<close>)
  then show ?thesis
    by (simp add: cleanup_expired_sessions_def fold_delete_row Let_def)
qed

theorem cleanup_expired_sessions_result_witness:
  "unique_keys demo_db
   \<and> cleanup_expired_sessions (demo_env 86400000000 ''n'') demo_db = (Inr 1, demo_db\<lparr>sessions := []\<rparr>)
   \<and> cleanup_expired_sessions (demo_env 86399999999 ''n'') demo_db = (Inr 0, demo_db)"
proof -
  have a: "filter (\<lambda>s. expires_at s \<le> utcnow (demo_env 86400000000 ''n'')) (sessions demo_db) = [demo_session]"
       "filter (\<lambda>s. utcnow (demo_env 86400000000 ''n'') < expires_at s) (sessions demo_db) = []"
       "filter (\<lambda>s. expires_at s \<le> utcnow (demo_env 86399999999 ''n'')) (sessions demo_db) = []"
       "filter (\<lambda>s. utcnow (demo_env 86399999999 ''n'') < expires_at s) (sessions demo_db) = sessions demo_db"
    by (simp_all add: demo_defs)
  from cleanup_expired_sessions_result[OF demo_unique, of "demo_env 86400000000 ''n''"]
       cleanup_expired_sessions_result[OF demo_unique, of "demo_env 86399999999 ''n''"]
  show ?thesis using demo_unique by (simp add: a)
qed

section \<open>The active flag is not read\<close>



lemma uwa_simps [simp]:
  "uid (user_with_is_active i b u) = uid u"
  "email (user_with_is_active i b u) = email u"
  "hashed_password (user_with_is_active i b u) = hashed_password u"
  "fields_ok (user_with_is_active i b u) = fields_ok u"
  by (simp_all add: user_with_is_active_def fields_ok_def)



lemma users_wia [simp]: "users (with_is_active i b db) = map (user_with_is_active i b) (users db)"
  and sessions_wia [simp]: "sessions (with_is_active i b db) = sessions db"
  and reset_tokens_wia [simp]: "reset_tokens (with_is_active i b db) = reset_tokens db"
  by (simp_all add: with_is_active_def)












section \<open>The constraints of the schema are kept\<close>

lemma unique_keys_add_user:
  "unique_keys db \<Longrightarrow> add_user db row = Inr (row', db') \<Longrightarrow> unique_keys db'"
  using next_id_fresh[of "map uid (users db)"]
  by (auto simp: add_user_def unique_keys_def Let_def split: if_splits)

lemma unique_keys_add_session:
  "unique_keys db \<Longrightarrow> add_session db row = Inr (row', db') \<Longrightarrow> unique_keys db'"
  using next_id_fresh[of "map session_id (sessions db)"]
  by (auto simp: add_session_def unique_keys_def Let_def split: if_splits)

lemma unique_keys_add_reset_token:
  "unique_keys db \<Longrightarrow> add_reset_token db row = Inr (row', db') \<Longrightarrow> unique_keys db'"
  using next_id_fresh[of "map rt_id (reset_tokens db)"]
  by (auto simp: add_reset_token_def unique_keys_def Let_def split: if_splits)

lemma unique_keys_sessions_filter:
  "unique_keys db \<Longrightarrow> unique_keys (db\<lparr>sessions := filter P (sessions db)\<rparr>)"
  by (simp add: unique_keys_def distinct_map_filter)

lemma unique_keys_create_user:
  assumes "unique_keys db" shows "unique_keys (snd (create_user e db ud))"
  using assms
  by (auto simp: create_user_def Let_def split: sum.splits option.splits prod.splits
        dest: unique_keys_add_user)

lemma unique_keys_create_session:
  assumes "unique_keys db" shows "unique_keys (snd (create_session e db i))"
  using assms
  by (auto simp: create_session_def Let_def split: sum.splits option.splits prod.splits
        dest: unique_keys_add_session)

lemma unique_keys_delete_session:
  assumes "unique_keys db" shows "unique_keys (snd (delete_session e db tok))"
  using assms
  by (auto simp: delete_session_def delete_row_def unique_keys_sessions_filter
        split: sum.splits option.splits)

lemma unique_keys_cleanup:
  assumes "unique_keys db" shows "unique_keys (snd (cleanup_expired_sessions e db))"
  using assms
  by (simp add: cleanup_expired_sessions_def Let_def fold_delete_row unique_keys_sessions_filter)

lemma unique_keys_create_reset:
  assumes "unique_keys db" shows "unique_keys (snd (create_password_reset_token e db em))"
  using assms
  by (auto simp: create_password_reset_token_def Let_def split: sum.splits option.splits prod.splits
        dest: unique_keys_add_reset_token)

lemma key_after_update:
  "uid \<circ> (\<lambda>x. if uid x = k then x\<lparr>hashed_password := h, user_updated_at := t\<rparr> else x) = uid"
  "email \<circ> (\<lambda>x. if uid x = k then x\<lparr>hashed_password := h, user_updated_at := t\<rparr> else x) = email"
  "rt_id \<circ> (\<lambda>x. if rt_id x = j then x\<lparr>is_used := True\<rparr> else x) = rt_id"
  "rt_token \<circ> (\<lambda>x. if rt_id x = j then x\<lparr>is_used := True\<rparr> else x) = rt_token"
  by (simp_all add: fun_eq_iff)

lemma unique_keys_reset_password:
  assumes "unique_keys db" shows "unique_keys (snd (reset_password e db tok pw))"
  using assms
  by (simp add: reset_password_def Let_def unique_keys_def key_after_update
        split: sum.splits option.splits)

lemma unique_keys_step: "unique_keys db \<Longrightarrow> unique_keys (step db c)"
proof (cases c)
  case (Pair e q)
  assume a: "unique_keys db"
  show ?thesis
  proof (cases q)
    case (CreateUser ud) with Pair a show ?thesis by (simp add: unique_keys_create_user)
  next
    case (AuthenticateUser em pw) with Pair a show ?thesis by (simp add: snd_authenticate_user)
  next
    case (CreateSession i) with Pair a show ?thesis by (simp add: unique_keys_create_session)
  next
    case (GetSessionByToken tok) with Pair a show ?thesis by (simp add: snd_get_session_by_token)
  next
    case (DeleteSession tok) with Pair a show ?thesis by (simp add: unique_keys_delete_session)
  next
    case CleanupExpiredSessions with Pair a show ?thesis by (simp add: unique_keys_cleanup)
  next
    case (CreatePasswordResetToken em) with Pair a show ?thesis by (simp add: unique_keys_create_reset)
  next
    case (ResetPassword tok pw) with Pair a show ?thesis by (simp add: unique_keys_reset_password)
  qed
qed

lemma unique_keys_run: "unique_keys db \<Longrightarrow> unique_keys (run db cs)"
  by (induction cs arbitrary: db) (simp_all add: unique_keys_step)

lemma unique_keys_empty: "unique_keys \<lparr>users = [], sessions = [], reset_tokens = []\<rparr>"
  by (simp add: unique_keys_def)

lemma users_create_session: "users (snd (create_session e db i)) = users db"
  by (auto simp: create_session_def add_session_def Let_def split: sum.splits option.splits prod.splits if_splits)

lemma users_delete_session: "users (snd (delete_session e db tok)) = users db"
  by (simp add: delete_session_def delete_row_def split: sum.splits option.splits)

lemma users_cleanup: "users (snd (cleanup_expired_sessions e db)) = users db"
  by (simp add: cleanup_expired_sessions_def fold_delete_row Let_def)

lemma users_create_reset: "users (snd (create_password_reset_token e db em)) = users db"
  by (auto simp: create_password_reset_token_def add_reset_token_def Let_def
        split: sum.splits option.splits prod.splits if_splits)

lemma views_ok_create_user:
  assumes "views_ok db" and "call_ok db (CreateUser ud)"
  shows "views_ok (snd (create_user e db ud))"
  using assms
  by (auto simp: create_user_def add_user_def Let_def views_ok_def fields_ok_def
        split: sum.splits option.splits prod.splits if_splits)

lemma views_ok_reset_password:
  assumes "views_ok db" shows "views_ok (snd (reset_password e db tok pw))"
  using assms
  by (auto simp: reset_password_def Let_def views_ok_def fields_ok_def list_all_iff
        split: sum.splits option.splits)

lemma views_ok_step:
  assumes "views_ok db" and "call_ok db q"
  shows "views_ok (step db (e, q))"
proof -
  have same: "\<And>db'. users db' = users db \<Longrightarrow> views_ok db'"
    using assms(1) by (simp add: views_ok_def)
  show ?thesis
  proof (cases q)
    case (CreateUser ud) with assms show ?thesis by (simp add: views_ok_create_user)
  next
    case (AuthenticateUser em pw) with assms show ?thesis by (simp add: snd_authenticate_user)
  next
    case (CreateSession i) then show ?thesis by (simp add: same users_create_session)
  next
    case (GetSessionByToken tok) with assms show ?thesis by (simp add: snd_get_session_by_token)
  next
    case (DeleteSession tok) then show ?thesis by (simp add: same users_delete_session)
  next
    case CleanupExpiredSessions then show ?thesis by (simp add: same users_cleanup)
  next
    case (CreatePasswordResetToken em) then show ?thesis by (simp add: same users_create_reset)
  next
    case (ResetPassword tok pw) with assms show ?thesis by (simp add: views_ok_reset_password)
  qed
qed

lemma foreign_keys_create_user:
  assumes "foreign_keys db" shows "foreign_keys (snd (create_user e db ud))"
  using assms
  by (auto simp: create_user_def add_user_def Let_def foreign_keys_def list_all_iff
        split: sum.splits option.splits prod.splits if_splits)

lemma foreign_keys_create_session:
  assumes "foreign_keys db" and "i \<in> set (map uid (users db))"
  shows "foreign_keys (snd (create_session e db i))"
  using assms
  by (auto simp: create_session_def add_session_def Let_def foreign_keys_def list_all_iff
        split: sum.splits option.splits prod.splits if_splits)

lemma foreign_keys_sessions_filter:
  "foreign_keys db \<Longrightarrow> foreign_keys (db\<lparr>sessions := filter P (sessions db)\<rparr>)"
  by (simp add: foreign_keys_def list_all_iff)

lemma foreign_keys_delete_session:
  assumes "foreign_keys db" shows "foreign_keys (snd (delete_session e db tok))"
  using assms
  by (auto simp: delete_session_def delete_row_def foreign_keys_sessions_filter
        split: sum.splits option.splits)

lemma foreign_keys_cleanup:
  assumes "foreign_keys db" shows "foreign_keys (snd (cleanup_expired_sessions e db))"
  using assms
  by (simp add: cleanup_expired_sessions_def Let_def fold_delete_row foreign_keys_sessions_filter)

lemma get_user_by_email_id:
  "get_user_by_email db em = Inr (Some v) \<Longrightarrow> resp_id v \<in> set (map uid (users db))"
proof -
  assume a: "get_user_by_email db em = Inr (Some v)"
  then obtain u where u: "scalar_one_or_none (filter (\<lambda>u. email u = em) (users db)) = Inr (Some u)"
      and v: "model_validate u = Inr v"
    by (auto simp: get_user_by_email_def split: sum.splits option.splits)
  from u have "filter (\<lambda>u. email u = em) (users db) = [u]"
    by (auto simp: scalar_one_or_none_def split: list.splits)
  then have "u \<in> set (filter (\<lambda>u. email u = em) (users db))" by simp
  then have "u \<in> set (users db)" by simp
  moreover from v have "resp_id v = uid u"
    by (auto simp: model_validate_def public_view_def split: if_splits)
  ultimately show ?thesis by auto
qed

lemma foreign_keys_create_reset:
  assumes "foreign_keys db" shows "foreign_keys (snd (create_password_reset_token e db em))"
proof (cases "get_user_by_email db em")
  case (Inl a) with assms show ?thesis by (simp add: create_password_reset_token_def)
next
  case (Inr o1)
  show ?thesis
  proof (cases o1)
    case None with Inr assms show ?thesis by (simp add: create_password_reset_token_def)
  next
    case (Some v)
    with Inr have "get_user_by_email db em = Inr (Some v)" by simp
    then have "resp_id v \<in> set (map uid (users db))" by (rule get_user_by_email_id)
    with Inr Some assms show ?thesis
      by (auto simp: create_password_reset_token_def add_reset_token_def Let_def
            foreign_keys_def list_all_iff)
  qed
qed

lemma foreign_keys_reset_password:
  assumes "foreign_keys db" shows "foreign_keys (snd (reset_password e db tok pw))"
proof -
  have "foreign_keys (db\<lparr>users := map (\<lambda>x. if uid x = k
                                         then x\<lparr>hashed_password := h, user_updated_at := t\<rparr>
                                         else x) (users db),
                        reset_tokens := map (\<lambda>x. if rt_id x = j then x\<lparr>is_used := True\<rparr> else x)
                                         (reset_tokens db)\<rparr>)" for k h t j
    using assms
    by (auto simp: foreign_keys_def list_all_iff key_after_update image_iff)
  with assms show ?thesis
    by (simp add: reset_password_def Let_def split: sum.splits option.splits)
qed

lemma foreign_keys_step:
  assumes "foreign_keys db" and "call_ok db q"
  shows "foreign_keys (step db (e, q))"
proof (cases q)
  case (CreateUser ud) with assms show ?thesis by (simp add: foreign_keys_create_user)
next
  case (AuthenticateUser em pw) with assms show ?thesis by (simp add: snd_authenticate_user)
next
  case (CreateSession i) with assms show ?thesis by (simp add: foreign_keys_create_session)
next
  case (GetSessionByToken tok) with assms show ?thesis by (simp add: snd_get_session_by_token)
next
  case (DeleteSession tok) with assms show ?thesis by (simp add: foreign_keys_delete_session)
next
  case CleanupExpiredSessions with assms show ?thesis by (simp add: foreign_keys_cleanup)
next
  case (CreatePasswordResetToken em) with assms show ?thesis by (simp add: foreign_keys_create_reset)
next
  case (ResetPassword tok pw) with assms show ?thesis by (simp add: foreign_keys_reset_password)
qed

lemma schema_kept_run:
  "unique_keys db \<Longrightarrow> foreign_keys db \<Longrightarrow> views_ok db \<Longrightarrow> calls_ok db cs \<Longrightarrow>
   unique_keys (run db cs) \<and> foreign_keys (run db cs) \<and> views_ok (run db cs)"
proof (induction cs arbitrary: db)
  case Nil
  then show ?case by simp
next
  case (Cons c cs)
  obtain e q where c: "c = (e, q)" by (cases c)
  from Cons.prems c have ok: "call_ok db q" "calls_ok (step db (e, q)) cs" by simp_all
  have "unique_keys (step db (e, q))" using Cons.prems(1) by (rule unique_keys_step)
  moreover have "foreign_keys (step db (e, q))" using Cons.prems(2) ok(1) by (rule foreign_keys_step)
  moreover have "views_ok (step db (e, q))" using Cons.prems(3) ok(1) by (rule views_ok_step)
  ultimately show ?case using Cons.IH[of "step db (e, q)"] ok(2) c by simp
qed

end
